theory Spec2Isabelle
  imports Complex_Main "HOL-Library.Sublist"
begin

section \<open>The per-endpoint session (class Provider of renderer/providers/Provider.ts)\<close>

text \<open>
  The session object is a record that every operation takes and returns. What the
  source does besides changing its fields is written into log fields of the record:
  emitted custom events (\<open>events\<close>), invocations of the transport's \<open>call\<close>
  (\<open>callLog\<close>), \<open>subscribe\<close> and \<open>closeSubscription\<close> requests, awaited delays,
  and asynchronous tasks a function starts without awaiting them (\<open>started\<close>).
  Logger calls change nothing and are left out.

  The session runs on one event loop. An awaited operation is modelled as running from
  its start to its end; the one suspension point at which the other operations of the
  session are let in is the wait of \<open>lockRequest\<close>, where their effect is a parameter.
  An operation that its caller does not await (\<open>updateLaunchContent\<close> in
  \<open>updateRosNodes\<close>) is split at its first suspension: the part before it runs inside
  the caller, the rest after the caller.

  Objects that the source hands on by reference and changes in place (the history
  array and the path set of a node) are kept in a store of the session record, and the
  nodes hold their addresses.
\<close>

subsection \<open>JavaScript strings and thrown values\<close>

text \<open>\<open>s.startsWith(p)\<close>\<close>

definition startsWith :: "string \<Rightarrow> string \<Rightarrow> bool" where
  "startsWith s p = (take (length p) s = p)"

text \<open>\<open>s.includes(t)\<close>, which is also \<open>s.indexOf(t) !== -1\<close>\<close>

fun js_includes :: "string \<Rightarrow> string \<Rightarrow> bool" where
  "js_includes [] t = (t = [])"
| "js_includes (c # cs) t = (startsWith (c # cs) t \<or> js_includes cs t)"

text \<open>\<open>s.replace(pat, rep)\<close> for a string pattern: the first occurrence only\<close>

fun replace :: "string \<Rightarrow> string \<Rightarrow> string \<Rightarrow> string" where
  "replace [] pat rep = (if pat = [] then rep else [])"
| "replace (c # cs) pat rep =
     (if startsWith (c # cs) pat then rep @ drop (length pat) (c # cs)
      else c # replace cs pat rep)"

text \<open>\<open>s.replaceAll(a, b)\<close> for single characters\<close>

definition replaceAll :: "string \<Rightarrow> char \<Rightarrow> char \<Rightarrow> string" where
  "replaceAll s a b = map (\<lambda>c. if c = a then b else c) s"


text \<open>\<open>[...new Set(xs)]\<close>: the first occurrence of every element, in order\<close>

definition uniq :: "'a list \<Rightarrow> 'a list" where
  "uniq xs = rev (remdups (rev xs))"

text \<open>
  A value a promise is rejected with or a function throws: a string, an \<open>Error\<close>
  object with its message, or a plain object (whose string form is the fixed text
  JavaScript gives every plain object).
\<close>

datatype jsval = JStr string | JErr string | JObj

text \<open>The template \<open>`${err}`\<close>\<close>

fun toString :: "jsval \<Rightarrow> string" where
  "toString (JStr s) = s"
| "toString (JErr m) = ''Error: '' @ m"
| "toString JObj = ''[object Object]''"

text \<open>\<open>Error(err)\<close>: a new Error object whose message is the string form of \<open>err\<close>\<close>

definition Error :: "jsval \<Rightarrow> jsval" where
  "Error v = JErr (toString v)"

subsection \<open>Data model\<close>

text \<open>
  The states of \<open>ConnectionState.STATES\<close> that Provider.ts names; the declaring file
  is not among the sources, so any further state is \<open>OTHER\<close> with its name.
\<close>

datatype ConnectionState =
  UNKNOWN | STARTING | CONNECTING | CROSSBAR_CONNECTED | CROSSBAR_REGISTERED
  | CONNECTED | ERRORED | CLOSED | OTHER string

datatype RosNodeStatus = ST_UNKNOWN | RUNNING | INACTIVE | NOT_MONITORED | DEAD

datatype DiagnosticLevel = OK | WARN | ERROR | STALE

record DiagnosticStatus =
  ds_level :: DiagnosticLevel
  ds_name :: string
  ds_message :: string
  ds_hardware_id :: string
  ds_values :: "(string \<times> string) list"

record DiagnosticArray =
  da_timestamp :: int
  da_status :: "DiagnosticStatus list"

text \<open>A peer endpoint descriptor as the remote side reports it (one entry of the peer list).\<close>

record RosProviderState =
  ps_name :: string
  ps_host :: string
  ps_port :: nat
  ps_masteruri :: string
  ps_ros_version :: string
  ps_origin :: bool
  ps_hostnames :: "string list"

text \<open>
  A session object constructed for a discovered peer (\<open>new Provider(...)\<close> in
  \<open>updateProviderList\<close>) with the fields that function sets. Its id is
  \<open>`${host}-${generateUniqueId()}`\<close>, kept as the host and the serial number of the
  generated id, so two constructed objects never share an id. \<open>rp_url\<close> is the uri of
  its connection, fixed at construction.
\<close>

record RemoteProvider =
  rp_id :: "string \<times> nat"
  rp_host :: string
  rp_rosVersion :: string
  rp_port :: nat
  rp_url :: string
  rp_rosState :: RosProviderState
  rp_discovered :: "string list"

record RosParameter =
  par_name :: string
  par_value :: string
  par_type :: string
  par_providerId :: string

text \<open>A node declaration of a configuration bundle; a missing attribute is the empty string.\<close>

record LaunchNode =
  unique_name :: string
  node_namespace :: string
  composable_container :: string

record LaunchAssociations =
  as_node :: string
  as_nodes :: "string list"

record LaunchContent =
  lc_path :: string
  lc_args :: "string list"
  lc_masteruri :: string
  lc_host :: string
  lc_nodes :: "LaunchNode list"
  lc_parameters :: "RosParameter list"
  lc_associations :: "LaunchAssociations list"

text \<open>\<open>n.location\<close> is a string or an array of strings.\<close>

datatype location = LocString string | LocArray "string list"

text \<open>
  A node of the local model. The topic and service maps, the screens and the tags of
  the source's RosNode are attributes no modelled check reads; they are left out.
  The array \<open>diagnosticStatus\<close> and the set \<open>launchPaths\<close> are objects that
  \<open>updateRosNodes\<close> hands from an old node to a new one by reference: a node holds
  their addresses, and their contents are in the store of the session (\<open>histories\<close>
  and \<open>launchPathSets\<close> of the record \<open>Provider\<close>).
\<close>

record RosNode =
  n_id :: string
  n_idGlobal :: string
  n_name :: string
  n_namespace :: string
  n_node_API_URI :: string
  n_status :: RosNodeStatus
  n_pid :: int
  n_masteruri :: string
  n_location :: location
  n_system_node :: bool
  n_parent_id :: string
  n_providerName :: string
  n_providerId :: string
  n_diagnosticStatus :: nat
  n_diagnosticLevel :: DiagnosticLevel
  n_diagnosticMessage :: string
  n_launchPaths :: nat
  n_launchPath :: string
  n_group :: string
  n_launchInfo :: "LaunchNode option"
  n_rosLoggers :: "(string \<times> string) list"
  n_parameters :: "(string \<times> string) list"
  n_associations :: "string list"

datatype event =
  EvProviderState ConnectionState ConnectionState string
  | EvProviderActivity bool string
  | EvProviderDiscovered RemoteProvider
  | EvProviderRemoved RemoteProvider
  | EvProviderLaunchList
  | EvProviderRosNodes

text \<open>Asynchronous work a function starts and does not await.\<close>

datatype task = Delay3000 | RegisterCallbacks | UpdateDaemonInit

text \<open>
  The session. Beside the attributes of the class it holds the store of the arrays and
  sets that nodes share by reference (\<open>histories\<close>, \<open>launchPathSets\<close>, and the next
  unused address \<open>nextRef\<close>), and logs of what the session did to the outside:
  the events it emitted, the invocations of the transport, the subscriptions, the
  delays it awaited and the asynchronous work it started.
\<close>

record Provider =
  ident :: string
  userName :: string
  conn_host :: string
  connected :: bool
  connectionState :: ConnectionState
  errorDetails :: string
  rosState :: RosProviderState
  daemon :: bool
  discovery :: bool
  launchFiles :: "LaunchContent list"
  rosNodes :: "RosNode list"
  remoteProviders :: "RemoteProvider list"
  hostnames :: "string list"
  callAttempts :: nat
  delayCallAttempts :: nat
  showRemoteNodes :: bool
  IGNORED_NODES :: "string list"
  echoTopics :: "string list"
  currentRequestList :: "string set"
  events :: "event list"
  callLog :: "(string \<times> string list) list"
  subscribed :: "string list"
  closedSubscriptions :: "string list"
  delays :: "nat list"
  started :: "task list"
  uidCounter :: nat
  histories :: "nat \<Rightarrow> DiagnosticStatus list"
  launchPathSets :: "nat \<Rightarrow> string set"
  nextRef :: nat

definition emitCustomEvent :: "event \<Rightarrow> Provider \<Rightarrow> Provider" where
  "emitCustomEvent e p = p\<lparr>events := events p @ [e]\<rparr>"

text \<open>\<open>await delay(ms)\<close> with nothing else running meanwhile\<close>

definition delay :: "nat \<Rightarrow> Provider \<Rightarrow> Provider" where
  "delay ms p = p\<lparr>delays := delays p @ [ms]\<rparr>"

definition name :: "Provider \<Rightarrow> string" where
  "name p =
     (if userName p \<noteq> [] then userName p
      else if ps_name (rosState p) \<noteq> [] then ps_name (rosState p)
      else conn_host p)"

definition isAvailable :: "Provider \<Rightarrow> bool" where
  "isAvailable p = connected p"

subsection \<open>Connection state machine\<close>

text \<open>
  \<open>setConnectionState(state, details)\<close>. The branches for the entered state start
  asynchronous work (an unawaited delay, \<open>registerCallbacks\<close>, \<open>updateDaemonInit\<close>),
  recorded in \<open>started\<close>.
\<close>

definition setConnectionState :: "ConnectionState \<Rightarrow> string \<Rightarrow> Provider \<Rightarrow> Provider" where
  "setConnectionState state details p =
     (if connectionState p = state then p
      else
        let oldState = connectionState p;
            p1 = p\<lparr>connectionState := state, errorDetails := details\<rparr>;
            p2 = emitCustomEvent (EvProviderState state oldState details) p1
        in if state = CONNECTING \<and> oldState = STARTING then p2\<lparr>started := started p2 @ [Delay3000]\<rparr>
           else if state = CROSSBAR_CONNECTED then p2\<lparr>started := started p2 @ [RegisterCallbacks]\<rparr>
           else if state = CROSSBAR_REGISTERED then p2\<lparr>started := started p2 @ [UpdateDaemonInit]\<rparr>
           else p2)"

subsection \<open>Clock-skew estimate\<close>

text \<open>
  \<open>calcTimeDiff(startTs, endTs, remoteTs)\<close>. JavaScript numbers are taken as exact
  reals; on millisecond timestamps the double arithmetic of the source is exact.
\<close>

definition calcTimeDiff :: "real \<Rightarrow> real \<Rightarrow> real \<Rightarrow> real" where
  "calcTimeDiff startTs endTs remoteTs =
     (let diffStartEnd = endTs - startTs;
          diffToStart = remoteTs - startTs;
          diffToEnd = endTs - remoteTs;
          result = \<bar>\<bar>diffToStart\<bar> + \<bar>diffToEnd\<bar> - diffStartEnd\<bar> / 2
      in if diffToStart < 0 then result * (- 1) else result)"

subsection \<open>Call dispatcher\<close>

text \<open>The procedure names of models/Crossbar.ts that the modelled operations call.\<close>

definition URI_ROS_PROVIDER_GET_LIST :: string where
  "URI_ROS_PROVIDER_GET_LIST = ''ros.provider.get_list''"

definition URI_ROS_PROVIDER_GET_DIAGNOSTICS :: string where
  "URI_ROS_PROVIDER_GET_DIAGNOSTICS = ''ros.provider.get_diagnostics''"


definition URI_ROS_LAUNCH_GET_LIST :: string where
  "URI_ROS_LAUNCH_GET_LIST = ''ros.launch.get_list''"

definition URI_ROS_SUBSCRIBER_START :: string where
  "URI_ROS_SUBSCRIBER_START = ''ros.subscriber.start''"

definition URI_ROS_SUBSCRIBER_STOP :: string where
  "URI_ROS_SUBSCRIBER_STOP = ''ros.subscriber.stop''"

definition URI_ROS_SUBSCRIBER_EVENT_PREFIX :: string where
  "URI_ROS_SUBSCRIBER_EVENT_PREFIX = ''ros.subscriber.event''"

text \<open>
  The errors \<open>makeCall\<close> rejects with, one constructor per \<open>throw\<close> of the source:
  \<^item> \<open>NotConnected\<close>: "provider not yet connected!";
  \<^item> \<open>AlreadyRunning\<close>: "request already running!";
  \<^item> \<open>RequestFailed\<close>: "request to [uri] failed: ${err}", thrown for a runtime error
    and for a closed connection, with the text of \<open>err\<close>;
  \<^item> \<open>MaxCallAttempts\<close>: "Max call attempts (n) reached!", with n;
  \<^item> \<open>Uncaught\<close>: an exception raised inside the catch block itself (by
    \<open>JSON.parse\<close> or by calling \<open>includes\<close> on the parsed value), which leaves
    \<open>callRequest\<close> as it is.
\<close>

datatype call_error =
  NotConnected | AlreadyRunning | RequestFailed string | MaxCallAttempts nat | Uncaught

text \<open>
  What one invocation of the transport's \<open>call(uri, args)\<close> does: its promise
  resolves, its promise is rejected with a reason, or the function throws before it
  returns a promise. The transport is not part of the sources; a call is given as the
  function from the attempt number (counted from 0) to the outcome of that attempt.
\<close>

datatype 'r outcome = Resolves 'r | Rejects jsval | Throws jsval

definition unlockRequest :: "string \<Rightarrow> Provider \<Rightarrow> Provider" where
  "unlockRequest request p =
     (let p1 = p\<lparr>currentRequestList := currentRequestList p - {request}\<rparr>
      in if currentRequestList p1 = {} then emitCustomEvent (EvProviderActivity False []) p1
         else p1)"

text \<open>
  \<open>lockRequest(request)\<close> returns true when the request stays locked. While it
  awaits its delay of 1000 ms the other asynchronous operations of the session run:
  \<open>env\<close> is what they do to the session in that time.
\<close>

definition lockRequest :: "(Provider \<Rightarrow> Provider) \<Rightarrow> string \<Rightarrow> Provider \<Rightarrow> bool \<times> Provider" where
  "lockRequest env request p =
     (let accept = (\<lambda>q. (False,
            (emitCustomEvent (EvProviderActivity True request) q)
              \<lparr>currentRequestList := insert request (currentRequestList q)\<rparr>))
      in if request \<in> currentRequestList p then
           let p1 = env (delay 1000 p)
           in if request \<in> currentRequestList p1 then (True, p1) else accept p1
         else accept p)"

text \<open>
  The catch block of \<open>callRequest\<close> for the caught value \<open>err\<close>: the error it throws
  with the session it leaves, or \<open>None\<close> when it goes on to wait and repeat.
  \<open>parse text\<close> stands for \<open>JSON.parse(text).error?.includes('wamp.error.runtime_error')\<close>:
  \<open>None\<close> when evaluating it throws.
\<close>

definition catchBlock ::
  "(string \<Rightarrow> bool option) \<Rightarrow> string \<Rightarrow> jsval \<Rightarrow> nat \<Rightarrow> Provider \<Rightarrow> (call_error \<times> Provider) option" where
  "catchBlock parse uri err currentAttempt p =
     (let attempts =
            (if currentAttempt \<ge> callAttempts p
             then Some (MaxCallAttempts (callAttempts p), unlockRequest uri p)
             else None)
      in if js_includes (toString err) ''{'' then
           (case parse (toString err) of
              None \<Rightarrow> Some (Uncaught, p)
            | Some True \<Rightarrow> Some (RequestFailed (toString err), unlockRequest uri p)
            | Some False \<Rightarrow> attempts)
         else if err = JStr ''Connection is closed'' then
           Some (RequestFailed (toString err), unlockRequest uri p)
         else attempts)"

text \<open>
  \<open>callRequest(_uri, _args, currentAttempt)\<close> of \<open>makeCall\<close>. A rejection of the
  transport's promise passes through \<open>.catch((err) => { throw Error(err); })\<close> before
  the catch block sees it; a synchronous throw reaches the catch block as it is.
\<close>

function callRequest ::
  "(string \<Rightarrow> bool option) \<Rightarrow> (nat \<Rightarrow> 'r outcome) \<Rightarrow> string \<Rightarrow> string list \<Rightarrow> nat \<Rightarrow> Provider
   \<Rightarrow> (call_error + 'r) \<times> Provider" where
  "callRequest parse conn uri args currentAttempt p =
     (let p1 = p\<lparr>callLog := callLog p @ [(uri, args)]\<rparr>
      in case conn currentAttempt of
           Resolves r \<Rightarrow> (Inr r, p1)
         | Rejects v \<Rightarrow>
             (case catchBlock parse uri (Error v) currentAttempt p1 of
                Some (e, p2) \<Rightarrow> (Inl e, p2)
              | None \<Rightarrow>
                  callRequest parse conn uri args (currentAttempt + 1)
                    (delay (delayCallAttempts p1) p1))
         | Throws v \<Rightarrow>
             (case catchBlock parse uri v currentAttempt p1 of
                Some (e, p2) \<Rightarrow> (Inl e, p2)
              | None \<Rightarrow>
                  callRequest parse conn uri args (currentAttempt + 1)
                    (delay (delayCallAttempts p1) p1)))"
  by pat_completeness auto

lemma catchBlock_None_attempt: "catchBlock parse uri err k p = None \<Longrightarrow> k < callAttempts p"
  by (auto simp: catchBlock_def Let_def split: if_splits option.splits bool.splits)

termination callRequest
  by (relation "measure (\<lambda>(parse, conn, uri, args, k, p). callAttempts p - k)")
     (auto simp: delay_def dest!: catchBlock_None_attempt)

declare callRequest.simps [simp del]

text \<open>\<open>makeCall(uri, args, lockRequest)\<close>\<close>

definition makeCall ::
  "(string \<Rightarrow> bool option) \<Rightarrow> (nat \<Rightarrow> 'r outcome) \<Rightarrow> (Provider \<Rightarrow> Provider) \<Rightarrow> string \<Rightarrow> string list
   \<Rightarrow> bool \<Rightarrow> Provider \<Rightarrow> (call_error + 'r) \<times> Provider" where
  "makeCall parse conn env uri args lockReq p =
     (if \<not> isAvailable p then (Inl NotConnected, p)
      else
        let (locked, p1) = (if lockReq then lockRequest env uri p else (False, p))
        in if locked then (Inl AlreadyRunning, p1)
           else (case callRequest parse conn uri args 0 p1 of
                   (Inl e, p2) \<Rightarrow> (Inl e, p2)
                 | (Inr result, p2) \<Rightarrow> (Inr result, unlockRequest uri p2)))"

text \<open>
  A caller that does not await \<open>makeCall(uri, args, true)\<close> runs it up to its first
  suspension and goes on with its own statements; the rest of the call runs later.
  Up to the first suspension \<open>makeCall\<close> has thrown the not-connected error
  (\<open>Refused\<close>), or \<open>lockRequest\<close> has started to wait because the name is in flight
  (\<open>Waiting\<close>), or \<open>lockRequest\<close> has emitted the activity event and added the name
  to the requests in flight (\<open>Accepted\<close>).
\<close>

datatype pending = Refused | Waiting | Accepted

definition makeCall_begin :: "string \<Rightarrow> Provider \<Rightarrow> pending \<times> Provider" where
  "makeCall_begin uri p =
     (if \<not> isAvailable p then (Refused, p)
      else if uri \<in> currentRequestList p then (Waiting, p)
      else (Accepted,
            (emitCustomEvent (EvProviderActivity True uri) p)
              \<lparr>currentRequestList := insert uri (currentRequestList p)\<rparr>))"

text \<open>
  The rest of a call that \<open>makeCall_begin\<close> started, on the session as it is when the
  call goes on.
\<close>

definition makeCall_resume ::
  "(string \<Rightarrow> bool option) \<Rightarrow> (nat \<Rightarrow> 'r outcome) \<Rightarrow> (Provider \<Rightarrow> Provider) \<Rightarrow> string \<Rightarrow> string list
   \<Rightarrow> pending \<Rightarrow> Provider \<Rightarrow> (call_error + 'r) \<times> Provider" where
  "makeCall_resume parse conn env uri args started_as p =
     (let request = (\<lambda>q. case callRequest parse conn uri args 0 q of
                            (Inl e, p2) \<Rightarrow> (Inl e, p2)
                          | (Inr result, p2) \<Rightarrow> (Inr result, unlockRequest uri p2))
      in case started_as of
           Refused \<Rightarrow> (Inl NotConnected, p)
         | Waiting \<Rightarrow>
             let p1 = env (delay 1000 p)
             in if uri \<in> currentRequestList p1 then (Inl AlreadyRunning, p1)
                else request ((emitCustomEvent (EvProviderActivity True uri) p1)
                                \<lparr>currentRequestList := insert uri (currentRequestList p1)\<rparr>)
         | Accepted \<Rightarrow> request p)"

subsection \<open>Echo subscriptions\<close>

text \<open>The request of \<open>startSubscriber\<close> (class SubscriberNode), with the attributes read here.\<close>

record SubscriberNode =
  sn_topic :: string
  sn_message_type :: string

definition generateCrossbarTopic :: "string \<Rightarrow> string" where
  "generateCrossbarTopic topic =
     URI_ROS_SUBSCRIBER_EVENT_PREFIX @ ''.'' @ replaceAll topic (CHR ''/'') (CHR ''_'')"

text \<open>
  \<open>registerCallback(uri, callback)\<close> asks the transport to subscribe; a failed
  subscription is only logged.
\<close>

definition registerCallback :: "string \<Rightarrow> Provider \<Rightarrow> Provider" where
  "registerCallback uri p = p\<lparr>subscribed := subscribed p @ [uri]\<rparr>"

text \<open>
  \<open>startSubscriber(request)\<close>; the remote call resolves with a boolean, and a
  rejected call counts as false.
\<close>

definition startSubscriber ::
  "(string \<Rightarrow> bool option) \<Rightarrow> (nat \<Rightarrow> bool outcome) \<Rightarrow> (Provider \<Rightarrow> Provider) \<Rightarrow> SubscriberNode
   \<Rightarrow> Provider \<Rightarrow> bool \<times> Provider" where
  "startSubscriber parse conn env request p =
     (let hasEcho = sn_topic request \<in> set (echoTopics p)
      in if hasEcho then (True, p)
         else
           let p1 = p\<lparr>echoTopics := echoTopics p @ [sn_topic request]\<rparr>;
               (res, p2) = makeCall parse conn env URI_ROS_SUBSCRIBER_START
                             [sn_topic request, sn_message_type request] True p1;
               result = (case res of Inl err \<Rightarrow> False | Inr value \<Rightarrow> value)
           in if result
              then (result, registerCallback (generateCrossbarTopic (sn_topic request)) p2)
              else (result, p2))"

text \<open>
  \<open>stopSubscriber(topic)\<close>. Its \<open>then\<close> handler also runs on the object the
  \<open>catch\<close> handler returns, so the \<open>result\<close> attribute of the answer is either the
  boolean of the remote side or that object.
\<close>

datatype stop_result = StopValue bool | StopCaught call_error

definition stopSubscriber ::
  "(string \<Rightarrow> bool option) \<Rightarrow> (nat \<Rightarrow> bool outcome) \<Rightarrow> (Provider \<Rightarrow> Provider) \<Rightarrow> string
   \<Rightarrow> Provider \<Rightarrow> stop_result \<times> Provider" where
  "stopSubscriber parse conn env topic p =
     (let hasTopic = topic \<in> set (echoTopics p);
          p1 = (if hasTopic
                then p\<lparr>echoTopics := filter (\<lambda>e. e \<noteq> topic) (echoTopics p),
                       closedSubscriptions := closedSubscriptions p @ [generateCrossbarTopic topic]\<rparr>
                else p);
          (res, p2) = makeCall parse conn env URI_ROS_SUBSCRIBER_STOP [topic] True p1
      in (case res of Inl err \<Rightarrow> (StopCaught err, p2) | Inr value \<Rightarrow> (StopValue value, p2)))"

subsection \<open>Diagnostics\<close>

text \<open>\<open>xs.findIndex(P)\<close>: the index of the first element that satisfies \<open>P\<close>\<close>

fun findIndex :: "('a \<Rightarrow> bool) \<Rightarrow> 'a list \<Rightarrow> nat option" where
  "findIndex P [] = None"
| "findIndex P (x # xs) = (if P x then Some 0 else map_option Suc (findIndex P xs))"

text \<open>\<open>getDiagnostics()\<close>: the remote answer (which may be null), or null when the call fails\<close>

definition getDiagnostics ::
  "(string \<Rightarrow> bool option) \<Rightarrow> (nat \<Rightarrow> DiagnosticArray option outcome) \<Rightarrow> (Provider \<Rightarrow> Provider)
   \<Rightarrow> Provider \<Rightarrow> DiagnosticArray option \<times> Provider" where
  "getDiagnostics parse conn env p =
     (let (res, p1) = makeCall parse conn env URI_ROS_PROVIDER_GET_DIAGNOSTICS [] True p
      in (case res of Inl err \<Rightarrow> (None, p1) | Inr value \<Rightarrow> (value, p1)))"

text \<open>\<open>array.push(status)\<close> on the history array at the address \<open>a\<close>\<close>

definition pushStatus :: "nat \<Rightarrow> DiagnosticStatus \<Rightarrow> Provider \<Rightarrow> Provider" where
  "pushStatus a status p = p\<lparr>histories := (histories p)(a := histories p a @ [status])\<rparr>"

text \<open>
  What \<open>updateDiagnostics\<close> does for one status to the node it matched, the node at
  index \<open>i\<close> of the model: level and message of the node are overwritten, and the
  status is pushed to the node's history array when the array is empty or its last
  entry differs in level, message or number of values.
\<close>

definition recordStatus :: "DiagnosticStatus \<Rightarrow> nat \<Rightarrow> Provider \<Rightarrow> Provider" where
  "recordStatus status i p =
     (let matchingNode = rosNodes p ! i;
          p1 = p\<lparr>rosNodes := (rosNodes p)[i :=
                    matchingNode\<lparr>n_diagnosticLevel := ds_level status,
                                  n_diagnosticMessage := ds_message status\<rparr>]\<rparr>;
          diagnosticStatus = histories p1 (n_diagnosticStatus matchingNode)
      in if length diagnosticStatus = 0
         then pushStatus (n_diagnosticStatus matchingNode) status p1
         else
           let lastStatus = diagnosticStatus ! (length diagnosticStatus - 1)
           in if ds_level lastStatus \<noteq> ds_level status
                 \<or> ds_message lastStatus \<noteq> ds_message status
                 \<or> length (ds_values lastStatus) \<noteq> length (ds_values status)
              then pushStatus (n_diagnosticStatus matchingNode) status p1
              else p1)"

text \<open>The body of \<open>diags.status.forEach\<close>: the first node whose id is the status name.\<close>

definition diagnosticsStep :: "DiagnosticStatus \<Rightarrow> Provider \<Rightarrow> Provider" where
  "diagnosticsStep status p =
     (case findIndex (\<lambda>node. n_id node = ds_name status) (rosNodes p) of
        None \<Rightarrow> p
      | Some i \<Rightarrow> recordStatus status i p)"

text \<open>
  \<open>updateDiagnostics(msg)\<close>: \<open>msg\<close> is the pushed message, or null (\<open>None\<close>) for a
  request, which pulls the list first.
\<close>

definition updateDiagnostics ::
  "(string \<Rightarrow> bool option) \<Rightarrow> (nat \<Rightarrow> DiagnosticArray option outcome) \<Rightarrow> (Provider \<Rightarrow> Provider)
   \<Rightarrow> DiagnosticArray option \<Rightarrow> Provider \<Rightarrow> bool \<times> Provider" where
  "updateDiagnostics parse conn env msg p =
     (let (diags, p1) = (case msg of Some d \<Rightarrow> (Some d, p) | None \<Rightarrow> getDiagnostics parse conn env p)
      in case diags of
           None \<Rightarrow> (False, p1)
         | Some d \<Rightarrow> (True, fold diagnosticsStep (da_status d) p1))"

text \<open>
  The address of the history array of the node that \<open>updateDiagnostics\<close> matches for
  a status: the array of the first node of the model whose id is the status name.
\<close>

definition matchedHistory :: "Provider \<Rightarrow> DiagnosticStatus \<Rightarrow> nat option" where
  "matchedHistory p status =
     map_option n_diagnosticStatus (find (\<lambda>node. n_id node = ds_name status) (rosNodes p))"

text \<open>
  Modelled from the spec: the rule for one incoming status and the history of the node
  it matches. The status is appended when its level, message or number of values differs
  from the most recently recorded entry (or nothing is recorded yet); an exact repeat
  leaves the history as it is.
\<close>

definition appendUnlessRepeat :: "DiagnosticStatus list \<Rightarrow> DiagnosticStatus \<Rightarrow> DiagnosticStatus list" where
  "appendUnlessRepeat hist status =
     (if hist = [] \<or> ds_level (last hist) \<noteq> ds_level status
         \<or> ds_message (last hist) \<noteq> ds_message status
         \<or> length (ds_values (last hist)) \<noteq> length (ds_values status)
      then hist @ [status] else hist)"

subsection \<open>Discovery of peers\<close>

text \<open>
  \<open>new Provider(settings, host, rosVersion, port, false, logger)\<close> for a discovered
  peer. The transport classes that compute the uri of a connection are not among the
  sources: \<open>uri_of host rosVersion port\<close> is that uri. \<open>uid\<close> is the serial number of
  the generated unique id.
\<close>

definition newProvider ::
  "(string \<Rightarrow> string \<Rightarrow> nat \<Rightarrow> string) \<Rightarrow> string \<Rightarrow> string \<Rightarrow> nat \<Rightarrow> nat \<Rightarrow> RemoteProvider" where
  "newProvider uri_of host rosVersion port uid =
     \<lparr>rp_id = (host, uid), rp_host = host, rp_rosVersion = rosVersion, rp_port = port,
      rp_url = uri_of host rosVersion port,
      rp_rosState = \<lparr>ps_name = [], ps_host = [], ps_port = 0, ps_masteruri = [],
                     ps_ros_version = [], ps_origin = False, ps_hostnames = []\<rparr>,
      rp_discovered = []\<rparr>"

text \<open>
  The body of \<open>rosProviders.forEach\<close> in \<open>updateProviderList\<close>, on the pair of the
  local \<open>oldRemoteProviders\<close> and the session.
\<close>

definition providerEntry ::
  "(string \<Rightarrow> string \<Rightarrow> nat \<Rightarrow> string) \<Rightarrow> RosProviderState
   \<Rightarrow> RemoteProvider list \<times> Provider \<Rightarrow> RemoteProvider list \<times> Provider" where
  "providerEntry uri_of e = (\<lambda>(oldRemoteProviders, q).
     if ps_origin e then
       let q1 = q\<lparr>rosState := e\<rparr>;
           q2 = (if conn_host q1 \<noteq> ''localhost'' \<and> conn_host q1 \<noteq> ps_host e
                    \<and> conn_host q1 \<notin> set (ps_hostnames e)
                 then (if ps_host e \<noteq> [] then q1\<lparr>hostnames := hostnames q1 @ [ps_host e]\<rparr> else q1)
                 else q1)
       in (oldRemoteProviders, q2\<lparr>hostnames := uniq (hostnames q2 @ ps_hostnames e)\<rparr>)
     else
       let np = newProvider uri_of (ps_host e)
                  (if ps_ros_version e \<noteq> [] then ps_ros_version e else ''2'') (ps_port e)
                  (uidCounter q);
           q1 = q\<lparr>uidCounter := Suc (uidCounter q)\<rparr>;
           old = filter (\<lambda>orp. rp_url orp \<noteq> rp_url np) oldRemoteProviders;
           np1 = np\<lparr>rp_rosState := e, rp_discovered := [ident q1]\<rparr>
       in (old, q1\<lparr>remoteProviders := remoteProviders q1 @ [np1]\<rparr>))"

text \<open>
  \<open>updateProviderList()\<close>. The detail string of the ERRORED state is the source's
  text without the interpolated provider name and error.
\<close>

definition updateProviderList ::
  "(string \<Rightarrow> bool option) \<Rightarrow> (nat \<Rightarrow> RosProviderState list outcome) \<Rightarrow> (Provider \<Rightarrow> Provider)
   \<Rightarrow> (string \<Rightarrow> string \<Rightarrow> nat \<Rightarrow> string) \<Rightarrow> Provider \<Rightarrow> bool \<times> Provider" where
  "updateProviderList parse conn env uri_of p =
     (let (res, p1) = makeCall parse conn env URI_ROS_PROVIDER_GET_LIST [] True p;
          (rosProviders, p2) =
            (case res of
               Inl err \<Rightarrow> ([], setConnectionState ERRORED ''updateProviderList() result'' p1)
             | Inr value \<Rightarrow> (value, p1))
      in if length rosProviders > 0 then
           let p3 = p2\<lparr>discovery := True\<rparr>;
               oldRemoteProviders = remoteProviders p3;
               p4 = p3\<lparr>remoteProviders := []\<rparr>;
               (removed, p5) = fold (providerEntry uri_of) rosProviders (oldRemoteProviders, p4);
               p6 = fold (\<lambda>np. emitCustomEvent (EvProviderDiscovered np)) (remoteProviders p5) p5;
               p7 = fold (\<lambda>rp. emitCustomEvent (EvProviderRemoved rp)) removed p6
           in (True, setConnectionState CONNECTED [] p7)
         else (False, p2))"

text \<open>The uri of the session object that \<open>updateProviderList\<close> constructs for a peer entry.\<close>

definition peerUrl :: "(string \<Rightarrow> string \<Rightarrow> nat \<Rightarrow> string) \<Rightarrow> RosProviderState \<Rightarrow> string" where
  "peerUrl uri_of e =
     uri_of (ps_host e) (if ps_ros_version e \<noteq> [] then ps_ros_version e else ''2'') (ps_port e)"

text \<open>The "peer discovered" and "peer removed" events of a log.\<close>

fun isDiscovered :: "event \<Rightarrow> bool" where
  "isDiscovered (EvProviderDiscovered np) = True"
| "isDiscovered e = False"

fun isRemoved :: "event \<Rightarrow> bool" where
  "isRemoved (EvProviderRemoved rp) = True"
| "isRemoved e = False"

subsection \<open>Node list and configuration bundles\<close>

text \<open>
  The arrays a new node object is constructed with: an empty history array and an
  empty set of bundle paths, both at the next unused address of the store.
\<close>

definition newArrays :: "Provider \<Rightarrow> Provider" where
  "newArrays p =
     p\<lparr>histories := (histories p)(nextRef p := []),
       launchPathSets := (launchPathSets p)(nextRef p := {}),
       nextRef := Suc (nextRef p)\<rparr>"

text \<open>
  Modelled from the spec: the class RosNode is not among the sources. The constructor
  takes id, name, namespace, API address, status, process id, realm address, location
  and the system-node flag; the process id is 0 for a node that is not running, and
  a new node has an empty diagnostic history, no bundle paths and no parameters.
  \<open>ref\<close> is the address of the node's new arrays.
\<close>

definition RosNode_new ::
  "string \<Rightarrow> string \<Rightarrow> string \<Rightarrow> string \<Rightarrow> RosNodeStatus \<Rightarrow> int \<Rightarrow> string \<Rightarrow> location \<Rightarrow> bool
   \<Rightarrow> nat \<Rightarrow> RosNode" where
  "RosNode_new id' name' namespace node_API_URI status pid masteruri location system_node ref =
     \<lparr>n_id = id', n_idGlobal = [], n_name = name', n_namespace = namespace,
      n_node_API_URI = node_API_URI, n_status = status, n_pid = pid,
      n_masteruri = masteruri, n_location = location, n_system_node = system_node,
      n_parent_id = [], n_providerName = [], n_providerId = [], n_diagnosticStatus = ref,
      n_diagnosticLevel = OK, n_diagnosticMessage = [], n_launchPaths = ref,
      n_launchPath = [], n_group = [], n_launchInfo = None, n_rosLoggers = [],
      n_parameters = [], n_associations = []\<rparr>"

text \<open>\<open>map.set(k, v)\<close> on a JavaScript Map, kept as the list of its entries in insertion order\<close>

fun map_set :: "('k \<times> 'v) list \<Rightarrow> 'k \<Rightarrow> 'v \<Rightarrow> ('k \<times> 'v) list" where
  "map_set [] k v = [(k, v)]"
| "map_set ((k', v') # m) k v = (if k' = k then (k, v) # m else (k', v') # map_set m k v)"

text \<open>
  Whether the text of a caught dispatcher error includes a marker: the error passed on
  from the transport is part of the text of \<open>RequestFailed\<close> only; the fixed parts of
  the messages, the provider name and the uri are taken not to contain the marker.
\<close>

fun errorMentions :: "call_error \<Rightarrow> string \<Rightarrow> bool" where
  "errorMentions (RequestFailed text) marker = js_includes text marker"
| "errorMentions e marker = False"






text \<open>
  The body of \<open>launchFile.nodes.forEach\<close> in \<open>updateLaunchContent\<close>: a declared node
  is attached to the first node of the model with the same name, or added as an
  INACTIVE node. The path of the bundle is added to the node's path set in place.
\<close>

definition declareNode :: "LaunchContent \<Rightarrow> LaunchNode \<Rightarrow> Provider \<Rightarrow> Provider" where
  "declareNode launchFile launchNode p =
     (let uniqueNodeName = unique_name launchNode
      in if uniqueNodeName = [] then p
         else
           let nodeParameters =
                 fold (\<lambda>par m. if js_includes (par_name par) uniqueNodeName
                                then map_set m (replace (par_name par) uniqueNodeName []) (par_value par)
                                else m)
                   (lc_parameters launchFile) [];
               associations =
                 fold (\<lambda>item a. if as_node item = uniqueNodeName then as_nodes item else a)
                   (lc_associations launchFile) []
           in case findIndex (\<lambda>n. n_name n = uniqueNodeName) (rosNodes p) of
                Some iNode \<Rightarrow>
                  let node = rosNodes p ! iNode;
                      p1 = p\<lparr>launchPathSets := (launchPathSets p)(n_launchPaths node :=
                                insert (lc_path launchFile) (launchPathSets p (n_launchPaths node)))\<rparr>
                  in p1\<lparr>rosNodes := (rosNodes p1)[iNode :=
                          node\<lparr>n_parameters := nodeParameters,
                               n_launchInfo := Some launchNode,
                               n_associations := associations\<rparr>]\<rparr>
              | None \<Rightarrow>
                  let n = RosNode_new uniqueNodeName uniqueNodeName (node_namespace launchNode) []
                            INACTIVE 0 [] (LocString []) False (nextRef p);
                      p1 = newArrays p;
                      p2 = p1\<lparr>launchPathSets := (launchPathSets p1)(n_launchPaths n :=
                                 insert (lc_path launchFile) (launchPathSets p1 (n_launchPaths n)))\<rparr>;
                      n1 = n\<lparr>n_parameters := nodeParameters,
                             n_launchInfo := Some launchNode\<rparr>;
                      n2 = n1\<lparr>n_idGlobal := ident p @ replaceAll (n_id n1) (CHR ''/'') (CHR ''.''),
                              n_providerName := name p,
                              n_providerId := ident p,
                              n_associations := associations\<rparr>
                  in p2\<lparr>rosNodes := rosNodes p2 @ [n2]\<rparr>)"

text \<open>
  The handlers that \<open>updateLaunchContent\<close> chains to its call, on the result of the
  call and the session it left: the remote answer may be null, and a failed call
  counts as no bundle. The pass that sets the nodelet tags writes only the tags, which
  the node record leaves out. The promise always resolves with true.
\<close>

definition launchContentThen ::
  "(call_error + LaunchContent list option) \<times> Provider \<Rightarrow> bool \<times> Provider" where
  "launchContentThen = (\<lambda>(res, p1).
     let (value, p2) =
            (case res of
               Inl err \<Rightarrow>
                 (None, (if errorMentions err ''wamp.error.no_such_procedure''
                         then p1\<lparr>daemon := False\<rparr> else p1)\<lparr>launchFiles := []\<rparr>)
             | Inr v \<Rightarrow> (v, p1));
          launchList =
            (case value of
               None \<Rightarrow> []
             | Some parsedList \<Rightarrow>
                 map (\<lambda>parsed. parsed\<lparr>lc_parameters :=
                        map (\<lambda>par. par\<lparr>par_providerId := ident p2\<rparr>) (lc_parameters parsed)\<rparr>)
                   (filter (\<lambda>parsed. \<not> (ps_masteruri (rosState p2) \<noteq> []
                                         \<and> lc_masteruri parsed \<noteq> ps_masteruri (rosState p2)))
                      parsedList));
          p3 = emitCustomEvent EvProviderLaunchList (p2\<lparr>launchFiles := launchList\<rparr>);
          p4 = fold (\<lambda>launchFile q. fold (declareNode launchFile) (lc_nodes launchFile) q)
                 (launchFiles p3) p3;
          p5 = p4\<lparr>daemon := True\<rparr>
      in (True, emitCustomEvent EvProviderRosNodes p5))"

text \<open>\<open>updateLaunchContent()\<close>, awaited\<close>

definition updateLaunchContent ::
  "(string \<Rightarrow> bool option) \<Rightarrow> (nat \<Rightarrow> LaunchContent list option outcome) \<Rightarrow> (Provider \<Rightarrow> Provider)
   \<Rightarrow> Provider \<Rightarrow> bool \<times> Provider" where
  "updateLaunchContent parse conn env p =
     launchContentThen (makeCall parse conn env URI_ROS_LAUNCH_GET_LIST [] True p)"

text \<open>
  The rest of an \<open>updateLaunchContent()\<close> that was called without await, after the
  caller's statements: the rest of its call and the handlers.
\<close>

definition updateLaunchContent_resume ::
  "(string \<Rightarrow> bool option) \<Rightarrow> (nat \<Rightarrow> LaunchContent list option outcome) \<Rightarrow> (Provider \<Rightarrow> Provider)
   \<Rightarrow> pending \<Rightarrow> Provider \<Rightarrow> bool \<times> Provider" where
  "updateLaunchContent_resume parse conn env launchCall p =
     launchContentThen (makeCall_resume parse conn env URI_ROS_LAUNCH_GET_LIST [] launchCall p)"

subsection \<open>Example sessions\<close>

text \<open>A connected session with nothing in flight and an attempt budget of 2.\<close>

definition session0 :: Provider where
  "session0 =
     \<lparr>ident = ''h1-0'', userName = [], conn_host = ''h1'', connected = True,
      connectionState = CONNECTED, errorDetails = [],
      rosState = \<lparr>ps_name = [], ps_host = ''h1'', ps_port = 35430, ps_masteruri = [],
                  ps_ros_version = ''2'', ps_origin = True, ps_hostnames = [''h1'']\<rparr>,
      daemon = True, discovery = True, launchFiles = [], rosNodes = [],
      remoteProviders = [], hostnames = [''h1''], callAttempts = 2,
      delayCallAttempts = 1000, showRemoteNodes = False, IGNORED_NODES = [],
      echoTopics = [], currentRequestList = {}, events = [], callLog = [],
      subscribed = [], closedSubscriptions = [], delays = [], started = [],
      uidCounter = 0, histories = (\<lambda>a. []), launchPathSets = (\<lambda>a. {}), nextRef = 0\<rparr>"

text \<open>Two diagnostic statuses for the node "/talker".\<close>

definition statusWarn :: DiagnosticStatus where
  "statusWarn = \<lparr>ds_level = WARN, ds_name = ''/talker'', ds_message = ''late'',
                  ds_hardware_id = [], ds_values = []\<rparr>"

definition statusError :: DiagnosticStatus where
  "statusError = \<lparr>ds_level = ERROR, ds_name = ''/talker'', ds_message = ''down'',
                   ds_hardware_id = [], ds_values = []\<rparr>"

text \<open>
  The INACTIVE node that a bundle's declaration of "/talker" puts into the model of
  \<open>session0\<close>, after a diagnostic status with level WARN was recorded for it. Its
  arrays are at the address 0.
\<close>

definition declaredTalker :: RosNode where
  "declaredTalker =
     (RosNode_new ''/talker'' ''/talker'' [] [] INACTIVE 0 [] (LocString []) False 0)
       \<lparr>n_idGlobal := ''h1-0.talker'', n_providerName := ''h1'', n_providerId := ''h1-0'',
        n_launchInfo := Some \<lparr>unique_name = ''/talker'', node_namespace = [],
                               composable_container = []\<rparr>,
        n_diagnosticLevel := WARN, n_diagnosticMessage := ''late''\<rparr>"

text \<open>An example of the uri of the connection to a host.\<close>

definition hostUri :: "string \<Rightarrow> string \<Rightarrow> nat \<Rightarrow> string" where
  "hostUri host ver port = ''ws://'' @ host"

text \<open>
  A peer list: the endpoint itself (host "h1") and one other peer (host "h2", port 7777).
\<close>

definition peerList :: "RosProviderState list" where
  "peerList =
     [\<lparr>ps_name = ''h1'', ps_host = ''h1'', ps_port = 35430, ps_masteruri = [],
       ps_ros_version = ''2'', ps_origin = True, ps_hostnames = [''h1'']\<rparr>,
      \<lparr>ps_name = ''h2'', ps_host = ''h2'', ps_port = 7777, ps_masteruri = [],
       ps_ros_version = ''2'', ps_origin = False, ps_hostnames = [''h2'']\<rparr>]"

text \<open>A configuration bundle that declares the node "/talker".\<close>

definition demoBundle :: LaunchContent where
  "demoBundle =
     \<lparr>lc_path = ''/demo.launch'', lc_args = [], lc_masteruri = [], lc_host = ''h1'',
      lc_nodes = [\<lparr>unique_name = ''/talker'', node_namespace = [], composable_container = []\<rparr>],
      lc_parameters = [], lc_associations = []\<rparr>"

text \<open>
  The session after a bundle pull that returned \<open>demoBundle\<close> and a pushed
  diagnostics message with \<open>statusWarn\<close>.
\<close>

definition declaredSession :: Provider where
  "declaredSession =
     snd (updateDiagnostics (\<lambda>t. None) (\<lambda>n. Rejects JObj) (\<lambda>q. q)
            (Some \<lparr>da_timestamp = 1, da_status = [statusWarn]\<rparr>)
            (snd (updateLaunchContent (\<lambda>t. None) (\<lambda>n. Resolves (Some [demoBundle])) (\<lambda>q. q)
                    session0)))"


section \<open>Properties\<close>

text \<open>
  C7. The clock-skew estimator computes sign * (|Tr - T0| + |T1 - Tr| - (T1 - T0)) / 2,
  the sign being negative exactly when Tr - T0 < 0; for T0 = 100, Tr = 90, T1 = 110 the
  estimate is negative (it is -10) and for T0 = 100, Tr = 130, T1 = 110 it is positive
  (it is 20). The outer absolute value of the source never changes the value.
\<close>

theorem calcTimeDiff_formula:
  "calcTimeDiff T0 T1 Tr =
     (if Tr - T0 < 0 then - 1 else 1) * (\<bar>Tr - T0\<bar> + \<bar>T1 - Tr\<bar> - (T1 - T0)) / 2
   \<and> calcTimeDiff 100 110 90 = - 10 \<and> calcTimeDiff 100 110 90 < 0
   \<and> calcTimeDiff 100 110 130 = 20 \<and> 0 < calcTimeDiff 100 110 130"
proof -
  have nn: "0 \<le> \<bar>Tr - T0\<bar> + \<bar>T1 - Tr\<bar> - (T1 - T0)"
    by linarith
  have inner: "\<bar>\<bar>Tr - T0\<bar> + \<bar>T1 - Tr\<bar> - (T1 - T0)\<bar> = \<bar>Tr - T0\<bar> + \<bar>T1 - Tr\<bar> - (T1 - T0)"
    using nn by (rule abs_of_nonneg)
  have general: "calcTimeDiff T0 T1 Tr =
      (if Tr - T0 < 0 then - 1 else 1) * (\<bar>Tr - T0\<bar> + \<bar>T1 - Tr\<bar> - (T1 - T0)) / 2"
  proof (cases "Tr - T0 < 0")
    case True
    then show ?thesis
      unfolding calcTimeDiff_def Let_def inner by (simp add: field_simps)
  next
    case False
    then show ?thesis
      unfolding calcTimeDiff_def Let_def inner by (simp add: field_simps)
  qed
  have early: "calcTimeDiff 100 110 90 = - 10"
    by (simp add: calcTimeDiff_def Let_def)
  have late: "calcTimeDiff 100 110 130 = 20"
    by (simp add: calcTimeDiff_def Let_def)
  show ?thesis
    using general early late by simp
qed

text \<open>
  C8. Calling setConnectionState with the state the session already holds changes
  nothing: the connection state and the error detail stay, no state-change event is
  emitted and no state-entry action is started, whatever detail string is passed.
\<close>

theorem setConnectionState_same_state_noop:
  "setConnectionState (connectionState p) details p = p"
  by (simp add: setConnectionState_def)

subsection \<open>Dispatcher lemmas\<close>

lemma unlockRequest_frame:
  "callLog (unlockRequest u p) = callLog p"
  "callAttempts (unlockRequest u p) = callAttempts p"
  "echoTopics (unlockRequest u p) = echoTopics p"
  "delays (unlockRequest u p) = delays p"
  "subscribed (unlockRequest u p) = subscribed p"
  by (simp_all add: unlockRequest_def emitCustomEvent_def Let_def)

lemma catchBlock_retryable:
  assumes "\<not> js_includes (toString err) ''{''" "err \<noteq> JStr ''Connection is closed''"
  shows "catchBlock parse uri err k p =
      (if k \<ge> callAttempts p
       then Some (MaxCallAttempts (callAttempts p), unlockRequest uri p) else None)"
  using assms by (simp add: catchBlock_def)

text \<open>
  A call whose every attempt is rejected with a reason that is not classified as
  terminal invokes the transport once per value of \<open>currentAttempt\<close> from \<open>k\<close> up to
  and including \<open>callAttempts\<close>.
\<close>

lemma callRequest_always_rejected:
  "(\<forall>n. conn n = Rejects v) \<Longrightarrow> \<not> js_includes (toString (Error v)) ''{''
   \<Longrightarrow> k \<le> callAttempts p \<Longrightarrow>
     fst (callRequest parse conn uri args k p) = Inl (MaxCallAttempts (callAttempts p))
     \<and> callLog (snd (callRequest parse conn uri args k p))
         = callLog p @ replicate (callAttempts p - k + 1) (uri, args)"
proof (induction parse conn uri args k p rule: callRequest.induct)
  case (1 parse conn uri args k p)
  let ?p1 = "p\<lparr>callLog := callLog p @ [(uri, args)]\<rparr>"
  have rej: "conn n = Rejects v" for n
    using "1.prems"(1) by simp
  have plain: "\<not> js_includes (toString (Error v)) ''{''"
    using "1.prems"(2) .
  have ne: "Error v \<noteq> JStr ''Connection is closed''"
    by (simp add: Error_def)
  have cb: "catchBlock parse uri (Error v) k ?p1 =
      (if k \<ge> callAttempts p
       then Some (MaxCallAttempts (callAttempts p), unlockRequest uri ?p1) else None)"
    using catchBlock_retryable[OF plain ne, of parse uri k ?p1] by simp
  show ?case
  proof (cases "k \<ge> callAttempts p")
    case True
    have some: "catchBlock parse uri (Error v) k ?p1 =
        Some (MaxCallAttempts (callAttempts p), unlockRequest uri ?p1)"
      using cb True by simp
    have step: "callRequest parse conn uri args k p =
        (Inl (MaxCallAttempts (callAttempts p)), unlockRequest uri ?p1)"
      by (subst callRequest.simps) (simp add: rej some Let_def)
    show ?thesis
      by (simp add: step unlockRequest_frame True)
  next
    case False
    then have lt: "k < callAttempts p"
      by simp
    have none: "catchBlock parse uri (Error v) k ?p1 = None"
      using cb False by simp
    have IH: "fst (callRequest parse conn uri args (k + 1) (delay (delayCallAttempts ?p1) ?p1))
          = Inl (MaxCallAttempts (callAttempts p))
        \<and> callLog (snd (callRequest parse conn uri args (k + 1) (delay (delayCallAttempts ?p1) ?p1)))
          = callLog ?p1 @ replicate (callAttempts p - (k + 1) + 1) (uri, args)"
      using "1.IH"(1)[OF refl rej none "1.prems"(1) plain] lt by (simp add: delay_def)
    have rep: "replicate (callAttempts p - k + 1) (uri, args) =
        (uri, args) # replicate (callAttempts p - (k + 1) + 1) (uri, args)"
      using lt by (metis Suc_diff_Suc add.commute plus_1_eq_Suc replicate_Suc)
    have step: "callRequest parse conn uri args k p =
        callRequest parse conn uri args (k + 1) (delay (delayCallAttempts ?p1) ?p1)"
      by (subst callRequest.simps) (simp add: rej none Let_def)
    show ?thesis
      unfolding step using IH rep by simp
  qed
qed

text \<open>
  What the retry loop changes of the session: the call log, the delays, the events and
  the set of requests in flight. Every attribute \<open>f\<close> that does not read them stays.
\<close>

lemma unlockRequest_keeps:
  assumes "\<And>q x. f (q\<lparr>events := x\<rparr>) = f q" "\<And>q x. f (q\<lparr>currentRequestList := x\<rparr>) = f q"
  shows "f (unlockRequest u p) = f p"
  using assms by (simp add: unlockRequest_def emitCustomEvent_def Let_def)

lemma catchBlock_keeps:
  assumes "\<And>q x. f (q\<lparr>events := x\<rparr>) = f q" "\<And>q x. f (q\<lparr>currentRequestList := x\<rparr>) = f q"
    and "catchBlock parse uri err k p = Some (e, p2)"
  shows "f p2 = f p"
  using assms(3) unlockRequest_keeps[of f uri p, OF assms(1,2)]
  by (auto simp: catchBlock_def Let_def split: if_splits option.splits bool.splits)

lemma callRequest_keeps:
  assumes ev: "\<And>q x. f (q\<lparr>events := x\<rparr>) = f q"
    and cr: "\<And>q x. f (q\<lparr>currentRequestList := x\<rparr>) = f q"
    and cl: "\<And>q x. f (q\<lparr>callLog := x\<rparr>) = f q"
    and dl: "\<And>q x. f (q\<lparr>delays := x\<rparr>) = f q"
  shows "f (snd (callRequest parse conn uri args k p)) = f p"
proof (induction parse conn uri args k p rule: callRequest.induct)
  case (1 parse conn uri args k p)
  let ?p1 = "p\<lparr>callLog := callLog p @ [(uri, args)]\<rparr>"
  have p1: "f ?p1 = f p" by (rule cl)
  have d1: "f (delay (delayCallAttempts ?p1) ?p1) = f p"
    by (simp add: delay_def dl cl)
  show ?case
  proof (cases "conn k")
    case (Resolves r)
    then show ?thesis by (subst callRequest.simps) (simp add: Let_def cl)
  next
    case (Rejects v)
    show ?thesis
    proof (cases "catchBlock parse uri (Error v) k ?p1")
      case None
      then show ?thesis
        using "1.IH"(1)[OF refl Rejects None] d1
        by (subst callRequest.simps) (simp add: Let_def Rejects)
    next
      case (Some a)
      then show ?thesis
        using catchBlock_keeps[of f parse uri "Error v" k ?p1 "fst a" "snd a", OF ev cr] p1
        by (subst callRequest.simps) (simp add: Let_def Rejects case_prod_beta)
    qed
  next
    case (Throws v)
    show ?thesis
    proof (cases "catchBlock parse uri v k ?p1")
      case None
      then show ?thesis
        using "1.IH"(2)[OF refl Throws None] d1
        by (subst callRequest.simps) (simp add: Let_def Throws)
    next
      case (Some a)
      then show ?thesis
        using catchBlock_keeps[of f parse uri v k ?p1 "fst a" "snd a", OF ev cr] p1
        by (subst callRequest.simps) (simp add: Let_def Throws case_prod_beta)
    qed
  qed
qed

lemma lockRequest_free:
  "uri \<notin> currentRequestList p \<Longrightarrow>
   lockRequest env uri p =
     (False, (emitCustomEvent (EvProviderActivity True uri) p)
               \<lparr>currentRequestList := insert uri (currentRequestList p)\<rparr>)"
  by (simp add: lockRequest_def Let_def)

lemma makeCall_keeps:
  assumes ev: "\<And>q x. f (q\<lparr>events := x\<rparr>) = f q"
    and cr: "\<And>q x. f (q\<lparr>currentRequestList := x\<rparr>) = f q"
    and cl: "\<And>q x. f (q\<lparr>callLog := x\<rparr>) = f q"
    and dl: "\<And>q x. f (q\<lparr>delays := x\<rparr>) = f q"
    and free: "uri \<notin> currentRequestList p"
  shows "f (snd (makeCall parse conn env uri args lockReq p)) = f p"
proof -
  let ?l = "if lockReq then lockRequest env uri p else (False, p)"
  have l: "fst ?l = False \<and> f (snd ?l) = f p"
    using ev cr by (simp add: lockRequest_free[OF free] emitCustomEvent_def)
  obtain r p2 where c: "callRequest parse conn uri args 0 (snd ?l) = (r, p2)"
    by (cases "callRequest parse conn uri args 0 (snd ?l)")
  have e2: "f p2 = f p"
    using callRequest_keeps[of f parse conn uri args 0 "snd ?l", OF ev cr cl dl] l by (simp add: c)
  have u: "f (unlockRequest uri p2) = f p"
    using unlockRequest_keeps[of f uri p2, OF ev cr] e2 by simp
  show ?thesis
    using l e2 u c
    by (cases r) (simp_all add: makeCall_def case_prod_beta)
qed

lemma makeCall_always_rejected:
  assumes av: "isAvailable p" and free: "uri \<notin> currentRequestList p"
    and rej: "\<forall>n. conn n = Rejects v"
    and plain: "\<not> js_includes (toString (Error v)) ''{''"
  shows "fst (makeCall parse conn env uri args True p) = Inl (MaxCallAttempts (callAttempts p))
     \<and> callLog (snd (makeCall parse conn env uri args True p))
         = callLog p @ replicate (callAttempts p + 1) (uri, args)"
proof -
  let ?p1 = "(emitCustomEvent (EvProviderActivity True uri) p)
               \<lparr>currentRequestList := insert uri (currentRequestList p)\<rparr>"
  obtain r p2 where cr: "callRequest parse conn uri args 0 ?p1 = (r, p2)"
    by (cases "callRequest parse conn uri args 0 ?p1")
  have "fst (callRequest parse conn uri args 0 ?p1) = Inl (MaxCallAttempts (callAttempts ?p1))
     \<and> callLog (snd (callRequest parse conn uri args 0 ?p1))
         = callLog ?p1 @ replicate (callAttempts ?p1 - 0 + 1) (uri, args)"
    by (rule callRequest_always_rejected[OF rej plain]) simp
  moreover have "callAttempts ?p1 = callAttempts p" "callLog ?p1 = callLog p"
    by (simp_all add: emitCustomEvent_def)
  ultimately have r: "r = Inl (MaxCallAttempts (callAttempts p))"
    and lg: "callLog p2 = callLog p @ replicate (callAttempts p + 1) (uri, args)"
    by (simp_all add: cr)
  show ?thesis
    using av by (simp add: makeCall_def lockRequest_free[OF free] cr r lg)
qed

lemma session0_ready:
  "isAvailable session0" "uri \<notin> currentRequestList session0"
  "callAttempts session0 = 2" "callLog session0 = []"
  by (simp_all add: isAvailable_def session0_def)

lemma makeCall_first_attempt:
  assumes av: "isAvailable p" and free: "uri \<notin> currentRequestList p"
    and ok: "conn 0 = Resolves r"
  shows "makeCall parse conn env uri args True p =
     (Inr r, p\<lparr>callLog := callLog p @ [(uri, args)],
              events := events p @ EvProviderActivity True uri #
                 (if currentRequestList p = {} then [EvProviderActivity False []] else [])\<rparr>)"
  using av free ok
  by (auto simp: makeCall_def lockRequest_free Let_def emitCustomEvent_def
      callRequest.simps[of _ _ _ _ 0] unlockRequest_def)

text \<open>
  A call that is started and goes on at once is the awaited call: \<open>makeCall_begin\<close>
  and \<open>makeCall_resume\<close> together are \<open>makeCall\<close> with the lock.
\<close>

lemma makeCall_split:
  "makeCall parse conn env uri args True p =
     (case makeCall_begin uri p of
        (started_as, p1) \<Rightarrow> makeCall_resume parse conn env uri args started_as p1)"
  by (simp add: makeCall_def makeCall_begin_def makeCall_resume_def lockRequest_def Let_def)


subsection \<open>Dispatcher properties\<close>

text \<open>
  C1. Specified: with an attempt budget of callAttempts = 2 and a transport call that
  fails every time with a retryable error, makeCall fails with the max-attempts error
  after exactly 2 invocations of the transport call, not 3.
  The code: on the connected session with budget 2 and nothing in flight, a call whose
  every attempt is rejected with "timeout" fails with the max-attempts error, and the
  transport call has been invoked 3 times. \<open>currentAttempt\<close> starts at 0 and is
  compared with \<open>callAttempts\<close> only after the attempt has failed.
\<close>

theorem makeCall_budget_two_three_invocations:
  "(case makeCall parse (\<lambda>n. Rejects (JStr ''timeout'')) env ''ros.daemon.get_version'' [] True session0 of
     (res, p') \<Rightarrow> res = Inl (MaxCallAttempts 2)
        \<and> callLog p' = replicate 3 (''ros.daemon.get_version'', []))"
proof -
  have plain: "\<not> js_includes (toString (Error (JStr ''timeout''))) ''{''"
    by (simp add: Error_def startsWith_def)
  have rej: "\<forall>n. (\<lambda>n::nat. Rejects (JStr ''timeout'')) n = Rejects (JStr ''timeout'')"
    by simp
  show ?thesis
    using makeCall_always_rejected[where p = session0 and uri = "''ros.daemon.get_version''"
        and args = "[]" and parse = parse and env = env, OF session0_ready(1,2) rej plain]
    by (simp add: session0_ready case_prod_beta numeral_3_eq_3)
qed

text \<open>
  C3. Specified: an attempt that fails because the transport reports the connection
  itself closed fails the call at once, with no further attempt, whatever budget is left.
  The code: when the transport's promise is rejected with the string "Connection is
  closed", the rejection handler wraps the reason in an Error object, the comparison of
  the caught value with that string is false, and the call is repeated until the budget
  is used up (3 invocations for budget 2), ending in the max-attempts error. Only a
  transport that throws the string before returning a promise reaches the terminal
  branch: then the call fails after 1 invocation.
\<close>

theorem makeCall_connection_closed_retried:
  "(case makeCall parse (\<lambda>n. Rejects (JStr ''Connection is closed'')) env
           ''ros.daemon.get_version'' [] True session0 of
     (res, p') \<Rightarrow> res = Inl (MaxCallAttempts 2)
        \<and> callLog p' = replicate 3 (''ros.daemon.get_version'', []))
   \<and> (case makeCall parse (\<lambda>n. Throws (JStr ''Connection is closed'')) env
           ''ros.daemon.get_version'' [] True session0 of
     (res, p') \<Rightarrow> res = Inl (RequestFailed ''Connection is closed'')
        \<and> callLog p' = [(''ros.daemon.get_version'', [])])"
proof -
  have plain: "\<not> js_includes (toString (Error (JStr ''Connection is closed''))) ''{''"
    by (simp add: Error_def startsWith_def)
  have rej: "\<forall>n. (\<lambda>n::nat. Rejects (JStr ''Connection is closed'')) n
      = Rejects (JStr ''Connection is closed'')"
    by simp
  have rejected: "(case makeCall parse (\<lambda>n. Rejects (JStr ''Connection is closed'')) env
           ''ros.daemon.get_version'' [] True session0 of
     (res, p') \<Rightarrow> res = Inl (MaxCallAttempts 2)
        \<and> callLog p' = replicate 3 (''ros.daemon.get_version'', []))"
    using makeCall_always_rejected[where p = session0 and uri = "''ros.daemon.get_version''"
        and args = "[]" and parse = parse and env = env, OF session0_ready(1,2) rej plain]
    by (simp add: session0_ready case_prod_beta numeral_3_eq_3)
  have thrown: "(case makeCall parse (\<lambda>n. Throws (JStr ''Connection is closed'')) env
           ''ros.daemon.get_version'' [] True session0 of
     (res, p') \<Rightarrow> res = Inl (RequestFailed ''Connection is closed'')
        \<and> callLog p' = [(''ros.daemon.get_version'', [])])"
    by (simp add: makeCall_def isAvailable_def session0_def lockRequest_def Let_def
        emitCustomEvent_def callRequest.simps[of _ _ _ _ 0] catchBlock_def startsWith_def
        unlockRequest_def)
  show ?thesis
    using rejected thrown by simp
qed

text \<open>
  C5. An exclusive call on a connected session, issued while a call of the same name
  is in flight, waits once for 1000 ms; when the name is still in flight after the wait
  (whatever else ran meanwhile), the call fails with the already-running error, and the
  session it leaves is exactly the one found after the wait: this call has invoked
  the transport not once.
\<close>

theorem makeCall_exclusive_in_flight:
  assumes "isAvailable p"
    and "uri \<in> currentRequestList p"
    and "uri \<in> currentRequestList (env (delay 1000 p))"
  shows "makeCall parse conn env uri args True p = (Inl AlreadyRunning, env (delay 1000 p))
     \<and> delays (delay 1000 p) = delays p @ [1000]"
  using assms by (simp add: makeCall_def lockRequest_def Let_def delay_def)

theorem makeCall_exclusive_in_flight_witness:
  "makeCall (\<lambda>t. None) (\<lambda>n. Resolves True) (\<lambda>q. q) ''ros.nodes.get_list'' [] True
       (session0\<lparr>currentRequestList := {''ros.nodes.get_list''}\<rparr>)
     = (Inl AlreadyRunning, delay 1000 (session0\<lparr>currentRequestList := {''ros.nodes.get_list''}\<rparr>))
   \<and> callLog (delay 1000 (session0\<lparr>currentRequestList := {''ros.nodes.get_list''}\<rparr>)) = []
   \<and> delays (delay 1000 (session0\<lparr>currentRequestList := {''ros.nodes.get_list''}\<rparr>)) = [1000]"
  using makeCall_exclusive_in_flight[of "session0\<lparr>currentRequestList := {''ros.nodes.get_list''}\<rparr>"
      "''ros.nodes.get_list''" "\<lambda>q. q" "\<lambda>t. None" "\<lambda>n. Resolves True" "[]"]
  by (simp add: isAvailable_def session0_def delay_def)

subsection \<open>Echo subscription lemmas\<close>

lemma callRequest_echoTopics:
  "echoTopics (snd (callRequest parse conn uri args k p)) = echoTopics p"
  by (rule callRequest_keeps) simp_all

lemma lockRequest_echoTopics:
  assumes "\<forall>q. P (echoTopics q) \<longrightarrow> P (echoTopics (env q))" "P (echoTopics p)"
  shows "P (echoTopics (snd (lockRequest env uri p)))"
  using assms by (simp add: lockRequest_def Let_def emitCustomEvent_def delay_def)

lemma makeCall_echoTopics:
  assumes keep: "\<forall>q. P (echoTopics q) \<longrightarrow> P (echoTopics (env q))" and start: "P (echoTopics p)"
  shows "P (echoTopics (snd (makeCall parse conn env uri args lockReq p)))"
proof -
  let ?l = "if lockReq then lockRequest env uri p else (False, p)"
  have l: "P (echoTopics (snd ?l))"
    using lockRequest_echoTopics[OF keep start] start by simp
  obtain r p2 where cr: "callRequest parse conn uri args 0 (snd ?l) = (r, p2)"
    by (cases "callRequest parse conn uri args 0 (snd ?l)")
  have e2: "echoTopics p2 = echoTopics (snd ?l)"
    using callRequest_echoTopics[of parse conn uri args 0 "snd ?l"] by (simp add: cr)
  show ?thesis
    using l e2 start cr
    by (cases r) (simp_all add: makeCall_def case_prod_beta unlockRequest_frame)
qed

lemma startSubscriber_marks:
  assumes keep: "\<forall>q. sn_topic r \<in> set (echoTopics q) \<longrightarrow> sn_topic r \<in> set (echoTopics (env q))"
  shows "sn_topic r \<in> set (echoTopics (snd (startSubscriber parse conn env r p)))"
proof (cases "sn_topic r \<in> set (echoTopics p)")
  case True
  then show ?thesis by (simp add: startSubscriber_def)
next
  case False
  let ?p1 = "p\<lparr>echoTopics := echoTopics p @ [sn_topic r]\<rparr>"
  let ?m = "makeCall parse conn env URI_ROS_SUBSCRIBER_START [sn_topic r, sn_message_type r] True ?p1"
  have "sn_topic r \<in> set (echoTopics (snd ?m))"
    by (rule makeCall_echoTopics[where P = "\<lambda>xs. sn_topic r \<in> set xs", OF keep]) simp
  then show ?thesis
    using False by (simp add: startSubscriber_def Let_def case_prod_beta registerCallback_def)
qed

lemma startSubscriber_started:
  "sn_topic r \<in> set (echoTopics q) \<Longrightarrow> startSubscriber parse conn env r q = (True, q)"
  by (simp add: startSubscriber_def)

lemma stopSubscriber_unmarks:
  assumes keep: "\<forall>q. t \<notin> set (echoTopics q) \<longrightarrow> t \<notin> set (echoTopics (env q))"
  shows "t \<notin> set (echoTopics (snd (stopSubscriber parse conn env t p)))"
proof -
  let ?p1 = "if t \<in> set (echoTopics p)
                then p\<lparr>echoTopics := filter (\<lambda>e. e \<noteq> t) (echoTopics p),
                       closedSubscriptions := closedSubscriptions p @ [generateCrossbarTopic t]\<rparr>
                else p"
  have "t \<notin> set (echoTopics ?p1)" by simp
  then have "t \<notin> set (echoTopics (snd (makeCall parse conn env URI_ROS_SUBSCRIBER_STOP [t] True ?p1)))"
    by (rule makeCall_echoTopics[where P = "\<lambda>xs. t \<notin> set xs", OF keep])
  moreover obtain res p2 where m: "makeCall parse conn env URI_ROS_SUBSCRIBER_STOP [t] True ?p1 = (res, p2)"
    by (cases "makeCall parse conn env URI_ROS_SUBSCRIBER_STOP [t] True ?p1")
  moreover have "snd (stopSubscriber parse conn env t p) = p2"
    using m by (cases res) (simp_all add: stopSubscriber_def Let_def split del: if_split cong: if_cong)
  ultimately show ?thesis
    by simp
qed

text \<open>
  The first start of a topic on the connected session with budget 2, when every attempt
  of the remote call is rejected with "timeout": it resolves false after three
  invocations of the transport.
\<close>

lemma startSubscriber_timeout_example:
  "(case startSubscriber (\<lambda>t. None) (\<lambda>n. Rejects (JStr ''timeout'')) (\<lambda>q. q)
          \<lparr>sn_topic = ''/chatter'', sn_message_type = ''std_msgs/String''\<rparr> session0 of
      (r1, p1) \<Rightarrow> r1 = False \<and> length (callLog p1) = 3)"
proof -
  let ?r = "\<lparr>sn_topic = ''/chatter'', sn_message_type = ''std_msgs/String''\<rparr>"
  let ?p1 = "session0\<lparr>echoTopics := echoTopics session0 @ [sn_topic ?r]\<rparr>"
  let ?conn = "\<lambda>n::nat. Rejects (JStr ''timeout'') :: bool outcome"
  have av: "isAvailable ?p1"
    by (simp add: isAvailable_def session0_def)
  have free: "URI_ROS_SUBSCRIBER_START \<notin> currentRequestList ?p1"
    by (simp add: session0_def)
  have plain: "\<not> js_includes (toString (Error (JStr ''timeout''))) ''{''"
    by (simp add: Error_def startsWith_def)
  have rej: "\<forall>n. ?conn n = Rejects (JStr ''timeout'')"
    by simp
  have m: "fst (makeCall (\<lambda>t. None) ?conn (\<lambda>q. q) URI_ROS_SUBSCRIBER_START
                  [sn_topic ?r, sn_message_type ?r] True ?p1) = Inl (MaxCallAttempts 2)
     \<and> callLog (snd (makeCall (\<lambda>t. None) ?conn (\<lambda>q. q) URI_ROS_SUBSCRIBER_START
                  [sn_topic ?r, sn_message_type ?r] True ?p1))
       = replicate 3 (URI_ROS_SUBSCRIBER_START, [sn_topic ?r, sn_message_type ?r])"
    using makeCall_always_rejected[OF av free rej plain]
    by (simp add: session0_def numeral_3_eq_3)
  have notin: "sn_topic ?r \<notin> set (echoTopics session0)"
    by (simp add: session0_def)
  show ?thesis
    using m notin by (simp add: startSubscriber_def Let_def case_prod_beta)
qed

subsection \<open>Echo subscription properties\<close>




text \<open>
  C10. When a call of startSubscriber resolves false (its remote call failed or
  returned false; no other operation removed the topic during the wait for the lock),
  the topic was not started before and is in the echo topics afterwards; every later
  startSubscriber for the topic, whatever the transport would answer, resolves true
  and leaves the session as it is, so it issues no remote call; a stopSubscriber for
  the topic takes it out of the echo topics again.
\<close>

theorem startSubscriber_failed_stays_started:
  assumes keep: "\<forall>q. sn_topic r \<in> set (echoTopics q) \<longrightarrow> sn_topic r \<in> set (echoTopics (env q))"
    and failed: "startSubscriber parse conn env r p = (False, p1)"
  shows "sn_topic r \<notin> set (echoTopics p) \<and> sn_topic r \<in> set (echoTopics p1)
     \<and> startSubscriber parse' conn' env' r p1 = (True, p1)
     \<and> sn_topic r \<notin> set (echoTopics (snd (stopSubscriber parse' conn' (\<lambda>q. q) (sn_topic r) p1)))"
proof -
  have a: "sn_topic r \<notin> set (echoTopics p)"
    using failed by (auto simp: startSubscriber_def)
  have b: "sn_topic r \<in> set (echoTopics p1)"
    using startSubscriber_marks[OF keep, of parse conn p] failed by simp
  have c: "startSubscriber parse' conn' env' r p1 = (True, p1)"
    using b by (rule startSubscriber_started)
  have d: "sn_topic r \<notin> set (echoTopics (snd (stopSubscriber parse' conn' (\<lambda>q. q) (sn_topic r) p1)))"
    by (rule stopSubscriber_unmarks) simp
  show ?thesis
    using a b c d by simp
qed

theorem startSubscriber_failed_stays_started_witness:
  "(case startSubscriber (\<lambda>t. None) (\<lambda>n. Rejects (JStr ''timeout'')) (\<lambda>q. q)
          \<lparr>sn_topic = ''/chatter'', sn_message_type = ''std_msgs/String''\<rparr> session0 of
      (r1, p1) \<Rightarrow> r1 = False
        \<and> ''/chatter'' \<in> set (echoTopics p1)
        \<and> startSubscriber (\<lambda>t. None) (\<lambda>n. Resolves True) (\<lambda>q. q)
            \<lparr>sn_topic = ''/chatter'', sn_message_type = ''std_msgs/String''\<rparr> p1 = (True, p1)
        \<and> ''/chatter'' \<notin> set (echoTopics (snd (stopSubscriber (\<lambda>t. None) (\<lambda>n. Resolves True)
              (\<lambda>q. q) ''/chatter'' p1))))"
proof -
  let ?r = "\<lparr>sn_topic = ''/chatter'', sn_message_type = ''std_msgs/String''\<rparr>"
  let ?conn = "\<lambda>n::nat. Rejects (JStr ''timeout'') :: bool outcome"
  obtain r1 p1 where first: "startSubscriber (\<lambda>t. None) ?conn (\<lambda>q. q) ?r session0 = (r1, p1)"
    by (cases "startSubscriber (\<lambda>t. None) ?conn (\<lambda>q. q) ?r session0")
  have r1: "r1 = False"
    using startSubscriber_timeout_example by (simp add: first)
  have keep: "\<forall>q. sn_topic ?r \<in> set (echoTopics q) \<longrightarrow> sn_topic ?r \<in> set (echoTopics ((\<lambda>q. q) q))"
    by simp
  have failed: "startSubscriber (\<lambda>t. None) ?conn (\<lambda>q. q) ?r session0 = (False, p1)"
    using first r1 by simp
  show ?thesis
    using startSubscriber_failed_stays_started[OF keep failed, of "\<lambda>t. None" "\<lambda>n. Resolves True" "\<lambda>q. q"]
    by (simp add: first r1)
qed

subsection \<open>Diagnostics\<close>

lemma findIndex_Some: "findIndex P xs = Some i \<Longrightarrow> i < length xs \<and> P (xs ! i)"
proof (induction xs arbitrary: i)
  case Nil
  then show ?case by simp
next
  case (Cons x xs)
  then show ?case by (cases "P x") (auto simp: nth_Cons')
qed


lemma find_findIndex: "find P xs = map_option (\<lambda>i. xs ! i) (findIndex P xs)"
  by (induction xs) (simp_all add: option.map_comp comp_def)

lemma find_map_key: "map_option g (find (\<lambda>x. P (g x)) xs) = find P (map g xs)"
  by (induction xs) simp_all

lemma matchedHistory_keys:
  "matchedHistory p st =
     map_option snd (find (\<lambda>k. fst k = ds_name st)
                       (map (\<lambda>n. (n_id n, n_diagnosticStatus n)) (rosNodes p)))"
proof -
  have "map_option (\<lambda>n. (n_id n, n_diagnosticStatus n))
          (find (\<lambda>n. fst (n_id n, n_diagnosticStatus n) = ds_name st) (rosNodes p))
        = find (\<lambda>k. fst k = ds_name st) (map (\<lambda>n. (n_id n, n_diagnosticStatus n)) (rosNodes p))"
    by (rule find_map_key)
  then have "find (\<lambda>k. fst k = ds_name st) (map (\<lambda>n. (n_id n, n_diagnosticStatus n)) (rosNodes p))
        = map_option (\<lambda>n. (n_id n, n_diagnosticStatus n)) (find (\<lambda>n. n_id n = ds_name st) (rosNodes p))"
    by simp
  then show ?thesis
    by (simp add: matchedHistory_def option.map_comp comp_def)
qed

text \<open>
  One status on the matched node: the node keeps its id and its history array, and the
  array changes by the rule.
\<close>

lemma recordStatus_keys:
  assumes i: "i < length (rosNodes p)"
  shows "map (\<lambda>n. (n_id n, n_diagnosticStatus n)) (rosNodes (recordStatus st i p))
           = map (\<lambda>n. (n_id n, n_diagnosticStatus n)) (rosNodes p)"
  using i by (simp add: recordStatus_def Let_def pushStatus_def map_update list_update_same_conv)

lemma recordStatus_histories:
  "histories (recordStatus st i p)
     = (histories p)(n_diagnosticStatus (rosNodes p ! i) :=
          appendUnlessRepeat (histories p (n_diagnosticStatus (rosNodes p ! i))) st)"
  by (auto simp: recordStatus_def Let_def pushStatus_def appendUnlessRepeat_def last_conv_nth)

lemma diagnosticsStep_effect:
  "map (\<lambda>n. (n_id n, n_diagnosticStatus n)) (rosNodes (diagnosticsStep st p))
     = map (\<lambda>n. (n_id n, n_diagnosticStatus n)) (rosNodes p)"
  "histories (diagnosticsStep st p) a =
     (if matchedHistory p st = Some a then appendUnlessRepeat (histories p a) st
      else histories p a)"
proof -
  show "map (\<lambda>n. (n_id n, n_diagnosticStatus n)) (rosNodes (diagnosticsStep st p))
     = map (\<lambda>n. (n_id n, n_diagnosticStatus n)) (rosNodes p)"
  proof (cases "findIndex (\<lambda>node. n_id node = ds_name st) (rosNodes p)")
    case None
    then show ?thesis by (simp add: diagnosticsStep_def)
  next
    case (Some i)
    then show ?thesis
      using recordStatus_keys[of i p st] findIndex_Some[OF Some]
      by (simp add: diagnosticsStep_def)
  qed
  show "histories (diagnosticsStep st p) a =
     (if matchedHistory p st = Some a then appendUnlessRepeat (histories p a) st
      else histories p a)"
  proof (cases "findIndex (\<lambda>node. n_id node = ds_name st) (rosNodes p)")
    case None
    then show ?thesis
      by (simp add: diagnosticsStep_def matchedHistory_def find_findIndex)
  next
    case (Some i)
    then show ?thesis
      by (simp add: diagnosticsStep_def matchedHistory_def find_findIndex recordStatus_histories)
  qed
qed

lemma fold_diagnosticsStep_effect:
  "map (\<lambda>n. (n_id n, n_diagnosticStatus n)) (rosNodes (fold diagnosticsStep sts p))
     = map (\<lambda>n. (n_id n, n_diagnosticStatus n)) (rosNodes p)
   \<and> histories (fold diagnosticsStep sts p) a
     = foldl appendUnlessRepeat (histories p a) (filter (\<lambda>st. matchedHistory p st = Some a) sts)"
proof (induction sts arbitrary: p)
  case Nil
  then show ?case by simp
next
  case (Cons st sts)
  let ?p1 = "diagnosticsStep st p"
  have keys: "map (\<lambda>n. (n_id n, n_diagnosticStatus n)) (rosNodes ?p1)
     = map (\<lambda>n. (n_id n, n_diagnosticStatus n)) (rosNodes p)"
    by (rule diagnosticsStep_effect(1))
  have same: "matchedHistory ?p1 s = matchedHistory p s" for s
    by (simp add: matchedHistory_keys keys)
  show ?case
    using Cons.IH[of ?p1] keys by (simp add: same diagnosticsStep_effect(2))
qed

lemma appendUnlessRepeat_prefix: "prefix hist (foldl appendUnlessRepeat hist sts)"
proof (induction sts arbitrary: hist)
  case Nil
  then show ?case by simp
next
  case (Cons st sts)
  have "prefix hist (appendUnlessRepeat hist st)"
    by (simp add: appendUnlessRepeat_def)
  then show ?case
    using Cons.IH[of "appendUnlessRepeat hist st"] by (auto intro: prefix_order.trans)
qed

text \<open>
  The scenario's first half on the code: after the bundle pull and the diagnostics
  message the model holds the one INACTIVE node "/talker", its history array holds
  the recorded status, and the session is connected and idle.
\<close>

lemma declaredSession_state:
  "rosNodes declaredSession = [declaredTalker]"
  "isAvailable declaredSession"
  "currentRequestList declaredSession = {}"
  "ident declaredSession = ''h1-0''"
  "name declaredSession = ''h1''"
  "showRemoteNodes declaredSession = False"
  "ps_masteruri (rosState declaredSession) = []"
  "IGNORED_NODES declaredSession = []"
  "histories declaredSession 0 = [statusWarn]"
  "nextRef declaredSession = 1"
proof -
  have ok: "(\<lambda>n::nat. Resolves (Some [demoBundle])) 0 = Resolves (Some [demoBundle])"
    by simp
  note M = makeCall_first_attempt[where conn = "\<lambda>n. Resolves (Some [demoBundle])"
      and uri = URI_ROS_LAUNCH_GET_LIST and parse = "\<lambda>t. None" and env = "\<lambda>q. q" and args = "[]",
      OF session0_ready(1) session0_ready(2) ok]
  define pA where "pA = snd (updateLaunchContent (\<lambda>t. None) (\<lambda>n. Resolves (Some [demoBundle]))
                                (\<lambda>q. q) session0)"
  have l: "rosNodes pA = [declaredTalker\<lparr>n_diagnosticLevel := OK, n_diagnosticMessage := []\<rparr>]"
    unfolding pA_def updateLaunchContent_def launchContentThen_def M
    by (simp add: Let_def emitCustomEvent_def session0_def demoBundle_def declareNode_def
        RosNode_new_def declaredTalker_def name_def replaceAll_def newArrays_def)
  have f: "connected pA" "currentRequestList pA = {}" "ident pA = ''h1-0''" "userName pA = []"
    "ps_name (rosState pA) = []" "conn_host pA = ''h1''" "showRemoteNodes pA = False"
    "ps_masteruri (rosState pA) = []" "IGNORED_NODES pA = []" "histories pA 0 = []"
    "nextRef pA = 1"
    unfolding pA_def updateLaunchContent_def launchContentThen_def M
    by (simp_all add: Let_def emitCustomEvent_def session0_def demoBundle_def declareNode_def
        RosNode_new_def name_def replaceAll_def newArrays_def)
  have d: "declaredSession = fold diagnosticsStep [statusWarn] pA"
    by (simp add: declaredSession_def updateDiagnostics_def pA_def)
  have step: "declaredSession = recordStatus statusWarn 0 pA"
    by (simp add: d diagnosticsStep_def l declaredTalker_def RosNode_new_def statusWarn_def)
  have node: "n_diagnosticStatus (rosNodes pA ! 0) = 0"
    by (simp add: l declaredTalker_def RosNode_new_def)
  show "rosNodes declaredSession = [declaredTalker]"
    by (simp add: step recordStatus_def Let_def pushStatus_def l f declaredTalker_def
        RosNode_new_def statusWarn_def)
  show "histories declaredSession 0 = [statusWarn]"
    by (simp add: step recordStatus_histories node f appendUnlessRepeat_def)
  show "isAvailable declaredSession" "currentRequestList declaredSession = {}"
    "ident declaredSession = ''h1-0''" "name declaredSession = ''h1''"
    "showRemoteNodes declaredSession = False" "ps_masteruri (rosState declaredSession) = []"
    "IGNORED_NODES declaredSession = []" "nextRef declaredSession = 1"
    by (simp_all add: step recordStatus_def Let_def pushStatus_def f isAvailable_def name_def)
qed

text \<open>
  C6. A diagnostics update, with a pushed message or (when no diagnostics call is in
  flight) with the list it pulls, leaves every node its id and its history array, and
  never replaces or truncates a history: what an array holds afterwards extends what it
  held before. It is what results from taking the incoming statuses one after the
  other and, for every status whose matched node (the first node of the model whose id
  is the status name) has this array as its history, appending the status if and only
  if the array is empty or its last entry differs from the status in level, message or
  number of values. The incoming statuses are those of the pushed message or of the
  pulled answer; a failed pull and a null answer bring none.
\<close>

theorem updateDiagnostics_history:
  fixes a :: nat
  defines "keys \<equiv> map (\<lambda>n. (n_id n, n_diagnosticStatus n))"
  assumes idle: "msg = None \<Longrightarrow> URI_ROS_PROVIDER_GET_DIAGNOSTICS \<notin> currentRequestList p"
    and incoming: "incoming =
       (case msg of
          Some d \<Rightarrow> da_status d
        | None \<Rightarrow> (case fst (getDiagnostics parse conn env p) of
                      Some d \<Rightarrow> da_status d
                    | None \<Rightarrow> []))"
    and after: "p' = snd (updateDiagnostics parse conn env msg p)"
  shows "keys (rosNodes p') = keys (rosNodes p)
     \<and> histories p' a
         = foldl appendUnlessRepeat (histories p a)
             (filter (\<lambda>status. matchedHistory p status = Some a) incoming)
     \<and> prefix (histories p a) (histories p' a)"
proof -
  obtain diags p1 where g: "(case msg of Some d \<Rightarrow> (Some d, p) | None \<Rightarrow> getDiagnostics parse conn env p) = (diags, p1)"
    by (cases "(case msg of Some d \<Rightarrow> (Some d, p) | None \<Rightarrow> getDiagnostics parse conn env p)")
  have frame: "rosNodes p1 = rosNodes p \<and> histories p1 = histories p"
  proof (cases msg)
    case (Some d)
    then show ?thesis using g by simp
  next
    case None
    obtain res q where m: "makeCall parse conn env URI_ROS_PROVIDER_GET_DIAGNOSTICS [] True p = (res, q)"
      by (cases "makeCall parse conn env URI_ROS_PROVIDER_GET_DIAGNOSTICS [] True p")
    have n1: "rosNodes q = rosNodes p"
      using makeCall_keeps[of rosNodes URI_ROS_PROVIDER_GET_DIAGNOSTICS p parse conn env "[]" True,
          OF _ _ _ _ idle[OF None]]
      by (simp add: m)
    have h1: "histories q = histories p"
      using makeCall_keeps[of histories URI_ROS_PROVIDER_GET_DIAGNOSTICS p parse conn env "[]" True,
          OF _ _ _ _ idle[OF None]]
      by (simp add: m)
    have "p1 = q"
      using g None by (cases res) (simp_all add: getDiagnostics_def m)
    then show ?thesis using n1 h1 by simp
  qed
  have inc: "incoming = (case diags of None \<Rightarrow> [] | Some d \<Rightarrow> da_status d)"
    using g incoming by (cases msg) (auto split: option.splits)
  have same: "matchedHistory p1 s = matchedHistory p s" for s
    using frame by (simp add: matchedHistory_def)
  have p': "p' = (case diags of None \<Rightarrow> p1 | Some d \<Rightarrow> fold diagnosticsStep (da_status d) p1)"
    unfolding after updateDiagnostics_def g by (simp split: option.splits)
  have main: "keys (rosNodes p') = keys (rosNodes p)
     \<and> histories p' a
         = foldl appendUnlessRepeat (histories p a)
             (filter (\<lambda>status. matchedHistory p status = Some a) incoming)"
  proof (cases diags)
    case None
    then show ?thesis using frame by (simp add: p' inc)
  next
    case (Some d)
    then show ?thesis
      using fold_diagnosticsStep_effect[of "da_status d" p1 a] frame
      by (simp add: p' inc same keys_def)
  qed
  show ?thesis
    using main appendUnlessRepeat_prefix[of "histories p a"] by simp
qed

text \<open>
  On the session that holds the declared "/talker" with the one recorded status WARN:
  a pull that answers with WARN, ERROR, ERROR, WARN for "/talker" leaves the history
  WARN, ERROR, WARN.
\<close>

theorem updateDiagnostics_history_witness:
  "histories (snd (updateDiagnostics (\<lambda>t. None)
       (\<lambda>n. Resolves (Some \<lparr>da_timestamp = 7,
                             da_status = [statusWarn, statusError, statusError, statusWarn]\<rparr>))
       (\<lambda>q. q) None declaredSession)) 0
   = [statusWarn, statusError, statusWarn]"
proof -
  let ?d = "\<lparr>da_timestamp = 7, da_status = [statusWarn, statusError, statusError, statusWarn]\<rparr>"
  let ?conn = "\<lambda>n::nat. Resolves (Some ?d)"
  have idle: "None = None \<Longrightarrow> URI_ROS_PROVIDER_GET_DIAGNOSTICS \<notin> currentRequestList declaredSession"
    by (simp add: declaredSession_state)
  have ok: "?conn 0 = Resolves (Some ?d)"
    by simp
  have free: "URI_ROS_PROVIDER_GET_DIAGNOSTICS \<notin> currentRequestList declaredSession"
    by (simp add: declaredSession_state)
  have pulled: "fst (getDiagnostics (\<lambda>t. None) ?conn (\<lambda>q. q) declaredSession) = Some ?d"
    by (simp add: getDiagnostics_def
        makeCall_first_attempt[where conn = ?conn, OF declaredSession_state(2) free ok])
  have matched: "matchedHistory declaredSession statusWarn = Some 0"
    "matchedHistory declaredSession statusError = Some 0"
    by (simp_all add: matchedHistory_def declaredSession_state declaredTalker_def RosNode_new_def
        statusWarn_def statusError_def)
  have differ: "ds_level statusWarn \<noteq> ds_level statusError"
    by (simp add: statusWarn_def statusError_def)
  show ?thesis
    using updateDiagnostics_history[where msg = None and p = declaredSession and a = 0
        and parse = "\<lambda>t. None" and conn = ?conn and env = "\<lambda>q. q", OF idle refl refl]
    using differ by (simp add: pulled matched declaredSession_state appendUnlessRepeat_def)
qed

subsection \<open>Discovery\<close>

lemma fold_providerEntry:
  "fold (providerEntry uri_of) ps (old, q) = (old', q') \<Longrightarrow>
     events q' = events q \<and> connected q' = connected q
     \<and> currentRequestList q' = currentRequestList q
     \<and> connectionState q' = connectionState q
     \<and> uidCounter q' = uidCounter q + length (filter (\<lambda>e. \<not> ps_origin e) ps)
     \<and> map rp_url (remoteProviders q') =
         map rp_url (remoteProviders q) @ map (peerUrl uri_of) (filter (\<lambda>e. \<not> ps_origin e) ps)
     \<and> map (\<lambda>np. snd (rp_id np)) (remoteProviders q') =
         map (\<lambda>np. snd (rp_id np)) (remoteProviders q)
           @ [uidCounter q ..< uidCounter q + length (filter (\<lambda>e. \<not> ps_origin e) ps)]
     \<and> old' = filter (\<lambda>orp. rp_url orp \<notin> set (map (peerUrl uri_of) (filter (\<lambda>e. \<not> ps_origin e) ps))) old"
proof (induction ps arbitrary: old q)
  case Nil
  then show ?case by simp
next
  case (Cons e ps)
  let ?n = "length (filter (\<lambda>e. \<not> ps_origin e) ps)"
  obtain old1 q1 where step: "providerEntry uri_of e (old, q) = (old1, q1)"
    by (cases "providerEntry uri_of e (old, q)")
  have rest: "fold (providerEntry uri_of) ps (old1, q1) = (old', q')"
    using Cons.prems step by simp
  note IH = Cons.IH[OF rest]
  show ?case
  proof (cases "ps_origin e")
    case True
    then have "old1 = old" "events q1 = events q" "connected q1 = connected q"
      "currentRequestList q1 = currentRequestList q" "connectionState q1 = connectionState q"
      "uidCounter q1 = uidCounter q" "remoteProviders q1 = remoteProviders q"
      using step by (auto simp: providerEntry_def Let_def split: if_splits)
    then show ?thesis using IH True by simp
  next
    case False
    then have s: "old1 = filter (\<lambda>orp. rp_url orp \<noteq> peerUrl uri_of e) old" "events q1 = events q" "connected q1 = connected q"
      "currentRequestList q1 = currentRequestList q" "connectionState q1 = connectionState q"
      "uidCounter q1 = Suc (uidCounter q)"
      "map rp_url (remoteProviders q1) = map rp_url (remoteProviders q) @ [peerUrl uri_of e]"
      "map (\<lambda>np. snd (rp_id np)) (remoteProviders q1) = map (\<lambda>np. snd (rp_id np)) (remoteProviders q) @ [uidCounter q]"
      using step by (auto simp: providerEntry_def Let_def newProvider_def peerUrl_def)
    have "uidCounter q < uidCounter q + Suc ?n"
      by simp
    then have "[uidCounter q ..< uidCounter q + Suc ?n] = uidCounter q # [Suc (uidCounter q) ..< uidCounter q + Suc ?n]"
      by (rule upt_conv_Cons)
    moreover have "uidCounter q + Suc ?n = Suc (uidCounter q) + ?n"
      by simp
    ultimately have up: "[uidCounter q ..< uidCounter q + Suc ?n] = uidCounter q # [Suc (uidCounter q) ..< Suc (uidCounter q) + ?n]"
      by (simp only:)
    have ids: "map (\<lambda>np. snd (rp_id np)) (remoteProviders q') =
         map (\<lambda>np. snd (rp_id np)) (remoteProviders q) @ [uidCounter q ..< uidCounter q + Suc ?n]"
      using IH s(6,8) unfolding up by simp
    have olds: "old' = filter (\<lambda>orp. rp_url orp \<notin> set (map (peerUrl uri_of) (filter (\<lambda>e. \<not> ps_origin e) (e # ps)))) old"
      using IH s(1) False by (auto simp: filter_filter conj_commute)
    have urls: "map rp_url (remoteProviders q') =
         map rp_url (remoteProviders q) @ map (peerUrl uri_of) (filter (\<lambda>e. \<not> ps_origin e) (e # ps))"
      using IH s(7) False by simp
    have rest: "events q' = events q \<and> connected q' = connected q
     \<and> currentRequestList q' = currentRequestList q
     \<and> connectionState q' = connectionState q
     \<and> uidCounter q' = uidCounter q + length (filter (\<lambda>e. \<not> ps_origin e) (e # ps))"
      using IH s False by simp
    have len: "length (filter (\<lambda>e. \<not> ps_origin e) (e # ps)) = Suc ?n" using False by simp
    show ?thesis using rest urls olds ids unfolding len by blast
  qed
qed

lemma fold_emit:
  "fold (\<lambda>x. emitCustomEvent (f x)) xs q = q\<lparr>events := events q @ map f xs\<rparr>"
  by (induction xs arbitrary: q) (simp_all add: emitCustomEvent_def)

lemma setConnectionState_frame:
  "remoteProviders (setConnectionState st d q) = remoteProviders q"
  "connected (setConnectionState st d q) = connected q"
  "currentRequestList (setConnectionState st d q) = currentRequestList q"
  "uidCounter (setConnectionState st d q) = uidCounter q"
  "rosNodes (setConnectionState st d q) = rosNodes q"
  "filter isDiscovered (events (setConnectionState st d q)) = filter isDiscovered (events q)"
  "filter isRemoved (events (setConnectionState st d q)) = filter isRemoved (events q)"
  by (simp_all add: setConnectionState_def Let_def emitCustomEvent_def)

lemma updateProviderList_pull:
  assumes av: "isAvailable p" and free: "URI_ROS_PROVIDER_GET_LIST \<notin> currentRequestList p"
    and ok: "conn 0 = Resolves ps" and ne: "ps \<noteq> []"
    and res: "updateProviderList parse conn env uri_of p = (b, p')"
  shows "b \<and> isAvailable p' \<and> currentRequestList p' = currentRequestList p
     \<and> uidCounter p' = uidCounter p + length (filter (\<lambda>e. \<not> ps_origin e) ps)
     \<and> map rp_url (remoteProviders p') = map (peerUrl uri_of) (filter (\<lambda>e. \<not> ps_origin e) ps)
     \<and> map (\<lambda>np. snd (rp_id np)) (remoteProviders p')
         = [uidCounter p ..< uidCounter p + length (filter (\<lambda>e. \<not> ps_origin e) ps)]
     \<and> filter isDiscovered (events p')
         = filter isDiscovered (events p) @ map EvProviderDiscovered (remoteProviders p')
     \<and> filter isRemoved (events p')
         = filter isRemoved (events p) @ map EvProviderRemoved
             (filter (\<lambda>orp. rp_url orp \<notin> set (map (peerUrl uri_of) (filter (\<lambda>e. \<not> ps_origin e) ps)))
                (remoteProviders p))"
proof -
  let ?p1 = "p\<lparr>callLog := callLog p @ [(URI_ROS_PROVIDER_GET_LIST, [])],
              events := events p @ EvProviderActivity True URI_ROS_PROVIDER_GET_LIST #
                 (if currentRequestList p = {} then [EvProviderActivity False []] else [])\<rparr>"
  let ?p4 = "?p1\<lparr>discovery := True, remoteProviders := []\<rparr>"
  have call: "makeCall parse conn env URI_ROS_PROVIDER_GET_LIST [] True p = (Inr ps, ?p1)"
    by (rule makeCall_first_attempt[where conn = conn, OF av free ok])
  obtain removed p5 where f: "fold (providerEntry uri_of) ps (remoteProviders ?p1, ?p4) = (removed, p5)"
    by (cases "fold (providerEntry uri_of) ps (remoteProviders ?p1, ?p4)")
  note F = fold_providerEntry[OF f]
  let ?p7 = "p5\<lparr>events := events p5 @ map EvProviderDiscovered (remoteProviders p5)
                 @ map EvProviderRemoved removed\<rparr>"
  have result: "updateProviderList parse conn env uri_of p = (True, setConnectionState CONNECTED [] ?p7)"
    using ne f by (simp add: updateProviderList_def call Let_def fold_emit)
  then have b: "b" and p': "p' = setConnectionState CONNECTED [] ?p7"
    using res by simp_all
  have nodisc: "filter isDiscovered (map EvProviderRemoved xs) = []" for xs
    by (induction xs) simp_all
  have disc: "filter isDiscovered (map EvProviderDiscovered xs) = map EvProviderDiscovered xs" for xs
    by (induction xs) simp_all
  have norem: "filter isRemoved (map EvProviderDiscovered xs) = []" for xs
    by (induction xs) simp_all
  have rem: "filter isRemoved (map EvProviderRemoved xs) = map EvProviderRemoved xs" for xs
    by (induction xs) simp_all
  have e5: "events p5 = events ?p1"
    using F by simp
  have c1: "isAvailable p'"
    using F av by (simp add: p' setConnectionState_frame isAvailable_def)
  have c2: "currentRequestList p' = currentRequestList p"
    using F by (simp add: p' setConnectionState_frame)
  have c3: "uidCounter p' = uidCounter p + length (filter (\<lambda>e. \<not> ps_origin e) ps)"
    using F by (simp add: p' setConnectionState_frame)
  have c4: "map rp_url (remoteProviders p') = map (peerUrl uri_of) (filter (\<lambda>e. \<not> ps_origin e) ps)"
    using F by (simp add: p' setConnectionState_frame)
  have c5: "map (\<lambda>np. snd (rp_id np)) (remoteProviders p')
         = [uidCounter p ..< uidCounter p + length (filter (\<lambda>e. \<not> ps_origin e) ps)]"
    using F by (simp add: p' setConnectionState_frame)
  have c6: "filter isDiscovered (events p')
         = filter isDiscovered (events p) @ map EvProviderDiscovered (remoteProviders p')"
    by (simp add: p' setConnectionState_frame e5 nodisc disc)
  have c7: "filter isRemoved (events p')
         = filter isRemoved (events p) @ map EvProviderRemoved
             (filter (\<lambda>orp. rp_url orp \<notin> set (map (peerUrl uri_of) (filter (\<lambda>e. \<not> ps_origin e) ps)))
                (remoteProviders p))"
    using F by (simp add: p' setConnectionState_frame e5 norem rem)
  show ?thesis
    using b c1 c2 c3 c4 c5 c6 c7 by blast
qed

text \<open>Two pulls of \<open>peerList\<close> in succession on the connected session.\<close>

lemma peerList_pulls:
  assumes first: "updateProviderList (\<lambda>t. None) (\<lambda>n. Resolves peerList) (\<lambda>q. q)
                    hostUri session0 = (b1, p1)"
    and second: "updateProviderList (\<lambda>t. None) (\<lambda>n. Resolves peerList) (\<lambda>q. q)
                    hostUri p1 = (b2, p2)"
  shows "filter isDiscovered (events p1) = map EvProviderDiscovered (remoteProviders p1)"
    and "filter isDiscovered (events p2)
          = map EvProviderDiscovered (remoteProviders p1) @ map EvProviderDiscovered (remoteProviders p2)"
    and "map (\<lambda>np. snd (rp_id np)) (remoteProviders p1) = [0]"
    and "map (\<lambda>np. snd (rp_id np)) (remoteProviders p2) = [1]"
    and "filter isRemoved (events p1) = []"
proof -
  have peers: "filter (\<lambda>e. \<not> ps_origin e) peerList = [peerList ! 1]" and ne: "peerList \<noteq> []"
    by (simp_all add: peerList_def)
  have s0: "events session0 = []" "remoteProviders session0 = []" "uidCounter session0 = 0"
    by (simp_all add: session0_def)
  have ok: "(\<lambda>n::nat. Resolves peerList) 0 = Resolves peerList"
    by simp
  note A = updateProviderList_pull[where conn = "\<lambda>n. Resolves peerList",
      OF session0_ready(1) session0_ready(2) ok ne first]
  have av1: "isAvailable p1" and free1: "URI_ROS_PROVIDER_GET_LIST \<notin> currentRequestList p1"
    using A session0_ready(2) by simp_all
  note B = updateProviderList_pull[where conn = "\<lambda>n. Resolves peerList", OF av1 free1 ok ne second]
  have c1: "uidCounter p1 = 1"
    using A by (simp add: peers s0)
  show "filter isDiscovered (events p1) = map EvProviderDiscovered (remoteProviders p1)"
    using A by (simp add: s0)
  then show "filter isDiscovered (events p2)
          = map EvProviderDiscovered (remoteProviders p1) @ map EvProviderDiscovered (remoteProviders p2)"
    using B by simp
  show "map (\<lambda>np. snd (rp_id np)) (remoteProviders p1) = [0]"
    using A by (simp add: peers s0)
  show "map (\<lambda>np. snd (rp_id np)) (remoteProviders p2) = [1]"
    using B by (simp add: peers c1)
  show "filter isRemoved (events p1) = []"
    using A by (simp add: s0)
qed

text \<open>
  C2, as stated: a second pull that returns the same peer list emits no further
  "peer discovered" event and constructs no session object for a peer that has one.
  It fails on the scenario of the spec: after the first pull of the list of "h1"
  (itself) and "h2", one "peer discovered" event has been emitted and the session
  object of the peer is the first one constructed (serial number 0); after the
  second, identical pull there are two such events, and the session object of the
  peer is another one (serial number 1).
\<close>

theorem identical_pull_discovers_again:
  "(case updateProviderList (\<lambda>t. None) (\<lambda>n. Resolves peerList) (\<lambda>q. q)
           hostUri session0 of
      (b1, p1) \<Rightarrow>
        (case updateProviderList (\<lambda>t. None) (\<lambda>n. Resolves peerList) (\<lambda>q. q)
                hostUri p1 of
           (b2, p2) \<Rightarrow>
             length (filter isDiscovered (events p1)) = 1
             \<and> length (filter isDiscovered (events p2)) = 2
             \<and> map (\<lambda>np. snd (rp_id np)) (remoteProviders p1) = [0]
             \<and> map (\<lambda>np. snd (rp_id np)) (remoteProviders p2) = [1]))"
proof -
  obtain b1 p1 where first: "updateProviderList (\<lambda>t. None) (\<lambda>n. Resolves peerList) (\<lambda>q. q)
                    hostUri session0 = (b1, p1)"
    by (cases "updateProviderList (\<lambda>t. None) (\<lambda>n. Resolves peerList) (\<lambda>q. q)
                    hostUri session0")
  obtain b2 p2 where second: "updateProviderList (\<lambda>t. None) (\<lambda>n. Resolves peerList) (\<lambda>q. q)
                    hostUri p1 = (b2, p2)"
    by (cases "updateProviderList (\<lambda>t. None) (\<lambda>n. Resolves peerList) (\<lambda>q. q)
                    hostUri p1")
  note P = peerList_pulls[OF first second]
  have l1: "length (remoteProviders p1) = 1"
    using P(3) by (metis length_map length_Cons list.size(3) One_nat_def)
  have l2: "length (remoteProviders p2) = 1"
    using P(4) by (metis length_map length_Cons list.size(3) One_nat_def)
  show ?thesis
    using P l1 l2 by (simp add: first second)
qed

text \<open>
  C2, amended: of two discovery pulls in succession that return the same non-empty
  peer list (on a connected session with no peer-list call in flight), the second
  emits no "peer removed" event, because the peers of the previous pull are matched by
  the uri of their connection (address and port) and not by object identity; it
  constructs a session object for every entry that is not the endpoint itself, with
  the same uris as before and none of them an object of the first pull, and emits one
  "peer discovered" event for each of these objects.
\<close>

theorem updateProviderList_second_pull:
  assumes av: "isAvailable p" and free: "URI_ROS_PROVIDER_GET_LIST \<notin> currentRequestList p"
    and ok1: "conn1 0 = Resolves ps" and ok2: "conn2 0 = Resolves ps" and ne: "ps \<noteq> []"
    and first: "updateProviderList parse conn1 env uri_of p = (b1, p1)"
    and second: "updateProviderList parse conn2 env uri_of p1 = (b2, p2)"
  shows "filter isRemoved (events p2) = filter isRemoved (events p1)
     \<and> filter isDiscovered (events p2)
         = filter isDiscovered (events p1) @ map EvProviderDiscovered (remoteProviders p2)
     \<and> length (remoteProviders p2) = length (filter (\<lambda>e. \<not> ps_origin e) ps)
     \<and> map rp_url (remoteProviders p2) = map rp_url (remoteProviders p1)
     \<and> set (map rp_id (remoteProviders p2)) \<inter> set (map rp_id (remoteProviders p1)) = {}"
proof -
  let ?peers = "filter (\<lambda>e. \<not> ps_origin e) ps"
  note A = updateProviderList_pull[where conn = conn1, OF av free ok1 ne first]
  have av1: "isAvailable p1" and free1: "URI_ROS_PROVIDER_GET_LIST \<notin> currentRequestList p1"
    using A free by simp_all
  note B = updateProviderList_pull[where conn = conn2, OF av1 free1 ok2 ne second]
  have gone: "filter (\<lambda>orp. rp_url orp \<notin> set (map (peerUrl uri_of) ?peers)) (remoteProviders p1) = []"
  proof -
    have "set (map rp_url (remoteProviders p1)) = set (map (peerUrl uri_of) ?peers)"
      using A by simp
    then have "\<forall>orp \<in> set (remoteProviders p1). rp_url orp \<in> set (map (peerUrl uri_of) ?peers)"
      by auto
    then show ?thesis by (simp add: filter_empty_conv)
  qed
  have r: "filter isRemoved (events p2) = filter isRemoved (events p1)"
    using B gone by simp
  have d: "filter isDiscovered (events p2)
         = filter isDiscovered (events p1) @ map EvProviderDiscovered (remoteProviders p2)"
    using B by simp
  have l: "length (remoteProviders p2) = length ?peers"
    using B by (metis length_map)
  have u: "map rp_url (remoteProviders p2) = map rp_url (remoteProviders p1)"
    using A B by simp
  have ids1: "snd ` set (map rp_id (remoteProviders p1)) = {uidCounter p ..< uidCounter p + length ?peers}"
  proof -
    have "set (map (\<lambda>np. snd (rp_id np)) (remoteProviders p1)) = {uidCounter p ..< uidCounter p + length ?peers}"
      using A by simp
    then show ?thesis by (simp add: image_image)
  qed
  have ids2: "snd ` set (map rp_id (remoteProviders p2)) = {uidCounter p1 ..< uidCounter p1 + length ?peers}"
  proof -
    have "set (map (\<lambda>np. snd (rp_id np)) (remoteProviders p2)) = {uidCounter p1 ..< uidCounter p1 + length ?peers}"
      using B by simp
    then show ?thesis by (simp add: image_image)
  qed
  have c1: "uidCounter p1 = uidCounter p + length ?peers"
    using A by simp
  have fresh: "set (map rp_id (remoteProviders p2)) \<inter> set (map rp_id (remoteProviders p1)) = {}"
  proof (rule ccontr)
    assume "set (map rp_id (remoteProviders p2)) \<inter> set (map rp_id (remoteProviders p1)) \<noteq> {}"
    then obtain x where x2: "x \<in> set (map rp_id (remoteProviders p2))" and x1: "x \<in> set (map rp_id (remoteProviders p1))"
      by blast
    have "snd x \<in> {uidCounter p ..< uidCounter p + length ?peers}"
      using x1 ids1 by blast
    moreover have "snd x \<in> {uidCounter p1 ..< uidCounter p1 + length ?peers}"
      using x2 ids2 by blast
    ultimately show False using c1 by simp
  qed
  show ?thesis using r d l u fresh by blast
qed

theorem updateProviderList_second_pull_witness:
  "(case updateProviderList (\<lambda>t. None) (\<lambda>n. Resolves peerList) (\<lambda>q. q)
           hostUri session0 of
      (b1, p1) \<Rightarrow>
        (case updateProviderList (\<lambda>t. None) (\<lambda>n. Resolves peerList) (\<lambda>q. q)
                hostUri p1 of
           (b2, p2) \<Rightarrow>
             filter isRemoved (events p2) = []
             \<and> length (remoteProviders p2) = 1
             \<and> map rp_url (remoteProviders p2) = map rp_url (remoteProviders p1)
             \<and> set (map rp_id (remoteProviders p2)) \<inter> set (map rp_id (remoteProviders p1)) = {}))"
proof -
  obtain b1 p1 where first: "updateProviderList (\<lambda>t. None) (\<lambda>n. Resolves peerList) (\<lambda>q. q)
                    hostUri session0 = (b1, p1)"
    by (cases "updateProviderList (\<lambda>t. None) (\<lambda>n. Resolves peerList) (\<lambda>q. q)
                    hostUri session0")
  obtain b2 p2 where second: "updateProviderList (\<lambda>t. None) (\<lambda>n. Resolves peerList) (\<lambda>q. q)
                    hostUri p1 = (b2, p2)"
    by (cases "updateProviderList (\<lambda>t. None) (\<lambda>n. Resolves peerList) (\<lambda>q. q)
                    hostUri p1")
  have ok: "(\<lambda>n::nat. Resolves peerList) 0 = Resolves peerList"
    by simp
  have ne: "peerList \<noteq> []" and peers: "length (filter (\<lambda>e. \<not> ps_origin e) peerList) = 1"
    by (simp_all add: peerList_def)
  note T = updateProviderList_second_pull[where ?conn1.0 = "\<lambda>n. Resolves peerList"
      and ?conn2.0 = "\<lambda>n. Resolves peerList",
      OF session0_ready(1) session0_ready(2) ok ok ne first second]
  show ?thesis
    using T peerList_pulls(5)[OF first second] peers by (simp add: first second)
qed

subsection \<open>Node list and configuration bundles\<close>

lemma updateLaunchContent_split:
  "updateLaunchContent parse conn env p =
     (case makeCall_begin URI_ROS_LAUNCH_GET_LIST p of
        (launchCall, p1) \<Rightarrow> updateLaunchContent_resume parse conn env launchCall p1)"
  by (simp add: updateLaunchContent_def updateLaunchContent_resume_def makeCall_split
      case_prod_beta)
























end
